theory Spec2Isabelle
  imports Main "HOL-Library.Word"
begin

unbundle bit_operations_syntax

section \<open>The UVC in-memory streamer of cyfxuvcinmem.c\<close>

text \<open>
  A shallow embedding of the streaming engine of \<^verbatim>\<open>cyfxuvcinmem.c\<close>: the routine that
  retunes the ISO MULT setting from the endpoint memory (\<^verbatim>\<open>CyFxUvcAppSetMultByEpm\<close>), the
  DMA consume callback, the start and the stop of the stream with the USB event callback
  that runs them, the header stamper (\<^verbatim>\<open>CyFxUVCAddHeader\<close>) and the producer loop of
  \<^verbatim>\<open>UVCAppThread_Entry\<close>.

  C integers are words of their width: \<^verbatim>\<open>uint8_t\<close>, \<^verbatim>\<open>uint16_t\<close> and
  \<^verbatim>\<open>uint32_t\<close> arithmetic wraps as the words do.  Memory behind a pointer is a function
  from the byte (or element) offset to the value stored there, so that no read is out
  of range in the model.  Calls into the FX3 SDK that act on the hardware, and stores to
  memory-mapped registers, are appended to a trace, in program order; what an SDK call
  returns is an input of the model.  The registers hold what the state says until the
  code stores to them; the properties of single calls hold for every content of the
  registers.
\<close>

type_synonym u8 = "8 word"
type_synonym u16 = "16 word"
type_synonym u32 = "32 word"
type_synonym bytes = "nat \<Rightarrow> u8"

subsection \<open>Constants of the source file\<close>

definition FX3_USB2_INEP_CFG_ADDR_BASE :: u32 where
  "FX3_USB2_INEP_CFG_ADDR_BASE = 0xe0031418"

definition FX3_USB2_INEP_MULT_MASK :: u32 where
  "FX3_USB2_INEP_MULT_MASK = 0x00003000"

definition FX3_USB2_INEP_MULT_POS :: nat where
  "FX3_USB2_INEP_MULT_POS = 12"

definition FX3_USB2_INEP_EPM_ADDR_BASE :: u32 where
  "FX3_USB2_INEP_EPM_ADDR_BASE = 0xe0031c40"

definition FX3_USB2_INEP_EPM_READY_MASK :: u32 where
  "FX3_USB2_INEP_EPM_READY_MASK = 0x40000000"

definition FX3_USB2_INEP_EPM_DSIZE_MASK :: u32 where
  "FX3_USB2_INEP_EPM_DSIZE_MASK = 0x07FFF800"

definition FX3_USB2_INEP_EPM_DSIZE_POS :: nat where
  "FX3_USB2_INEP_EPM_DSIZE_POS = 11"

text \<open>The SDK's success code, and its \<^verbatim>\<open>CY_U3P_MIN\<close> and \<^verbatim>\<open>CY_U3P_MAX\<close> macros
  (conditional expressions on the promoted operands).\<close>

definition CY_U3P_SUCCESS :: u32 where
  "CY_U3P_SUCCESS = 0"

definition CY_U3P_MIN :: "u8 \<Rightarrow> u8 \<Rightarrow> u8" where
  "CY_U3P_MIN a b = (if a < b then a else b)"

definition CY_U3P_MAX :: "u8 \<Rightarrow> u8 \<Rightarrow> u8" where
  "CY_U3P_MAX a b = (if a > b then a else b)"

datatype CyU3PUSBSpeed_t =
    CY_U3P_NOT_CONNECTED
  | CY_U3P_FULL_SPEED
  | CY_U3P_HIGH_SPEED
  | CY_U3P_SUPER_SPEED

text \<open>
  The SDK's USB event types (the callback of this file names \<^verbatim>\<open>SETCONF\<close>,
  \<^verbatim>\<open>SETINTF\<close>, \<^verbatim>\<open>RESET\<close> and \<^verbatim>\<open>DISCONNECT\<close>; the others fall to its
  \<^verbatim>\<open>default\<close>), its endpoint types, and the fields of its endpoint configuration.
\<close>

datatype CyU3PUsbEventType_t =
    CY_U3P_USB_EVENT_CONNECT
  | CY_U3P_USB_EVENT_DISCONNECT
  | CY_U3P_USB_EVENT_SUSPEND
  | CY_U3P_USB_EVENT_RESUME
  | CY_U3P_USB_EVENT_RESET
  | CY_U3P_USB_EVENT_SETCONF
  | CY_U3P_USB_EVENT_SPEED
  | CY_U3P_USB_EVENT_SETINTF
  | CY_U3P_USB_EVENT_SET_SEL
  | CY_U3P_USB_EVENT_SOF_ITP
  | CY_U3P_USB_EVENT_EP0_STAT_CPLT
  | CY_U3P_USB_EVENT_VBUS_VALID
  | CY_U3P_USB_EVENT_VBUS_REMOVED

datatype CyU3PUsbEpType_t =
    CY_U3P_USB_EP_CONTROL
  | CY_U3P_USB_EP_ISO
  | CY_U3P_USB_EP_BULK
  | CY_U3P_USB_EP_INTR

record CyU3PEpConfig_t =
  enable :: bool
  epType :: CyU3PUsbEpType_t
  streams :: u16
  pcktSize :: u16
  burstLen :: u8
  isoPkts :: u8

text \<open>The SDK's \<^verbatim>\<open>CY_U3P_GET_MSB\<close> and \<^verbatim>\<open>CY_U3P_GET_LSB\<close> macros: the two bytes of a
  16 bit value.\<close>

definition CY_U3P_GET_MSB :: "u16 \<Rightarrow> u8" where
  "CY_U3P_GET_MSB w = ucast (drop_bit 8 w)"

definition CY_U3P_GET_LSB :: "u16 \<Rightarrow> u8" where
  "CY_U3P_GET_LSB w = ucast (w AND 0xFF)"

datatype CyU3PDmaCbType_t =
    CY_U3P_DMA_CB_XFER_CPLT
  | CY_U3P_DMA_CB_SEND_CPLT
  | CY_U3P_DMA_CB_RECV_CPLT
  | CY_U3P_DMA_CB_PROD_EVENT
  | CY_U3P_DMA_CB_CONS_EVENT
  | CY_U3P_DMA_CB_ABORTED
  | CY_U3P_DMA_CB_ERROR
  | CY_U3P_DMA_CB_PROD_SUSP
  | CY_U3P_DMA_CB_CONS_SUSP

subsection \<open>Build-time parameters\<close>

text \<open>
  The macros and tables of \<^verbatim>\<open>cyfxuvcinmem.h\<close> and of the frame data file are
  parameters of the model; the fields carry the names the source uses.
\<close>

record config =
  CY_FX_UVC_STREAM_BUF_SIZE :: u32
  CY_FX_UVC_MAX_HEADER :: u32
  CY_FX_UVC_HEADER_FRAME :: u8
  CY_FX_UVC_HEADER_EOF :: u8
  CY_FX_UVC_HEADER_FRAME_ID :: u8
  CY_FX_UVC_HEADER_DEFAULT_BFH :: u8
  CY_FX_EP_ISO_VIDEO :: u8
  CY_FX_EP_ISO_VIDEO_PKTS_COUNT :: nat
  CY_FX_EP_ISO_VIDEO_PKT_SIZE :: u16
  CY_FX_EP_ISO_VIDEO_SS_MULT :: u8
  CY_FX_EP_ISO_VIDEO_SS_BURST :: u8
  CY_FX_UVC_INTERFACE_VS :: u8
  CY_FX_UVC_MAX_VID_FRAMES :: u32
  glVidFrameLen :: "nat \<Rightarrow> u32"
  glUVCVidFrames :: bytes

subsection \<open>State\<close>

text \<open>
  The SDK calls and register stores that the trace records, with the arguments the code
  passes: \<^verbatim>\<open>CyU3PSetEpConfig\<close> with the endpoint and the configuration it is given,
  \<^verbatim>\<open>CyU3PDebugPrint\<close> with the priority, the format string and the arguments that
  follow it.
\<close>

datatype event =
    RegWrite u32 u32
  | UsbSetEpNak u8 bool
  | BusyWait nat
  | ThreadSleep nat
  | DmaChannelGetBuffer
  | DmaChannelCommitBuffer u16
  | DmaChannelCreate
  | DmaChannelSetXfer
  | DmaChannelDestroy
  | UsbFlushEp u8
  | SetEpConfig u8 CyU3PEpConfig_t
  | DebugPrint nat string "u32 list"

text \<open>
  The globals of the file, the memory-mapped registers (by address), the trace of SDK
  calls, and the buffers the DMA channel has accepted, each with its committed length.
\<close>

record state =
  regs :: "u32 \<Rightarrow> u32"
  CurrentMultVal :: u8
  glUVCHeader :: bytes
  glIsApplnActive :: bool
  glIsDevConfigured :: bool
  uvcVideoEpCfg :: CyU3PEpConfig_t
  trace :: "event list"
  dma_out :: "(bytes \<times> u16) list"

text \<open>The locals of \<^verbatim>\<open>UVCAppThread_Entry\<close>.\<close>

record locals =
  dmaBuffer :: bytes
  commitLength :: u16
  frameStart :: u32
  frameIndex :: u32
  frameOffset :: u32
  status :: u32

text \<open>
  What the SDK and the other execution contexts supply during one pass through the
  body of the streaming loop: the result of \<^verbatim>\<open>CyU3PDmaChannelGetBuffer\<close> and the
  buffer it hands out, the result of \<^verbatim>\<open>CyU3PUsbGetSpeed\<close>, the result of
  \<^verbatim>\<open>CyU3PDmaChannelCommitBuffer\<close>, the USB event (its type and its data), if any, that
  \<^verbatim>\<open>CyFxUVCApplnUSBEventCB\<close> handled while the thread was inside the body, and the
  results of \<^verbatim>\<open>CyU3PSetEpConfig\<close>, \<^verbatim>\<open>CyU3PDmaChannelCreate\<close> and
  \<^verbatim>\<open>CyU3PDmaChannelSetXfer\<close> should that event run \<^verbatim>\<open>CyFxUVCApplnStart\<close>.
\<close>

record env =
  get_status :: u32
  get_buffer :: bytes
  usb_speed :: CyU3PUSBSpeed_t
  commit_status :: u32
  usb_event :: "(CyU3PUsbEventType_t \<times> u16) option"
  ep_config_status :: u32
  channel_create_status :: u32
  set_xfer_status :: u32

subsection \<open>SDK calls\<close>

definition log :: "event \<Rightarrow> state \<Rightarrow> state" where
  "log ev s = s\<lparr>trace := trace s @ [ev]\<rparr>"

text \<open>The two characters that end every message of the file: carriage return, line feed.\<close>

definition crlf :: string where
  "crlf = [CHR 0x0D, CHR 0x0A]"

definition CyU3PMemCopy :: "bytes \<Rightarrow> nat \<Rightarrow> bytes \<Rightarrow> nat \<Rightarrow> nat \<Rightarrow> bytes" where
  "CyU3PMemCopy dest d src sidx count =
     (\<lambda>i. if d \<le> i \<and> i < d + count then src (sidx + (i - d)) else dest i)"

definition CyU3PThreadSleep :: "nat \<Rightarrow> state \<Rightarrow> state" where
  "CyU3PThreadSleep n s = log (ThreadSleep n) s"

definition CyU3PBusyWait :: "nat \<Rightarrow> state \<Rightarrow> state" where
  "CyU3PBusyWait n s = log (BusyWait n) s"

definition CyU3PUsbSetEpNak :: "u8 \<Rightarrow> bool \<Rightarrow> state \<Rightarrow> state" where
  "CyU3PUsbSetEpNak ep nak s = log (UsbSetEpNak ep nak) s"

definition CyU3PDmaChannelGetBuffer :: "env \<Rightarrow> locals \<Rightarrow> state \<Rightarrow> locals \<times> state" where
  "CyU3PDmaChannelGetBuffer e l s =
     (l\<lparr>status := get_status e,
        dmaBuffer := (if get_status e = CY_U3P_SUCCESS then get_buffer e else dmaBuffer l)\<rparr>,
      log DmaChannelGetBuffer s)"

definition CyU3PDmaChannelCommitBuffer :: "env \<Rightarrow> locals \<Rightarrow> state \<Rightarrow> locals \<times> state" where
  "CyU3PDmaChannelCommitBuffer e l s =
     (l\<lparr>status := commit_status e\<rparr>,
      (log (DmaChannelCommitBuffer (commitLength l)) s)
        \<lparr>dma_out := (if commit_status e = CY_U3P_SUCCESS
                     then dma_out s @ [(dmaBuffer l, commitLength l)] else dma_out s)\<rparr>)"

subsection \<open>CyFxUvcAppSetMultByEpm and the DMA callback\<close>

definition CyFxUvcAppSetMultByEpm :: "u8 \<Rightarrow> state \<Rightarrow> state" where
  "CyFxUvcAppSetMultByEpm ep s =
     (let val1 = regs s (FX3_USB2_INEP_CFG_ADDR_BASE + 4 * ucast ep);
          val2 = regs s (FX3_USB2_INEP_EPM_ADDR_BASE + 4 * ucast ep);
          multVal = (if val2 AND FX3_USB2_INEP_EPM_READY_MASK \<noteq> 0
                     then (let val2 = drop_bit FX3_USB2_INEP_EPM_DSIZE_POS
                                        (val2 AND FX3_USB2_INEP_EPM_DSIZE_MASK)
                           in ucast (val2 div 1024 + 1))
                     else 0);
          s = s\<lparr>CurrentMultVal := multVal\<rparr>;
          multVal = CY_U3P_MIN multVal 3;
          multVal = CY_U3P_MAX multVal 1;
          val1 = (val1 AND NOT FX3_USB2_INEP_MULT_MASK)
                   OR push_bit FX3_USB2_INEP_MULT_POS (ucast multVal)
      in log (RegWrite (FX3_USB2_INEP_CFG_ADDR_BASE + 4 * ucast ep) val1)
           (s\<lparr>regs := (regs s)(FX3_USB2_INEP_CFG_ADDR_BASE + 4 * ucast ep := val1)\<rparr>))"

definition CyFxUVCAppDmaCallback ::
  "config \<Rightarrow> CyU3PDmaCbType_t \<Rightarrow> CyU3PUSBSpeed_t \<Rightarrow> state \<Rightarrow> state" where
  "CyFxUVCAppDmaCallback cfg type speed s =
     (if type = CY_U3P_DMA_CB_CONS_EVENT
      then (if speed = CY_U3P_HIGH_SPEED
            then CyFxUvcAppSetMultByEpm (CY_FX_EP_ISO_VIDEO cfg AND 0x0F) s
            else s)
      else s)"

subsection \<open>CyFxUVCApplnStart, CyFxUVCApplnStop and the USB event callback\<close>

text \<open>
  \<^verbatim>\<open>CyFxUVCApplnStart\<close> returns at the first SDK call that fails and sets
  \<^verbatim>\<open>glIsApplnActive\<close> only when all three succeed; its result is the status it
  returns and the state it leaves.  \<^verbatim>\<open>CyFxUVCApplnUSBEventCB\<close> stops an active stream on
  every event it names, and on \<^verbatim>\<open>SETINTF\<close> starts it afterwards when the event selects
  a non-zero alternate setting of the streaming interface.
\<close>

definition CyFxUVCApplnStart :: "config \<Rightarrow> env \<Rightarrow> state \<Rightarrow> u32 \<times> state" where
  "CyFxUVCApplnStart cfg e s =
     (let c = uvcVideoEpCfg s;
          c = (if usb_speed e = CY_U3P_SUPER_SPEED
               then c\<lparr>isoPkts := CY_FX_EP_ISO_VIDEO_SS_MULT cfg,
                      burstLen := CY_FX_EP_ISO_VIDEO_SS_BURST cfg\<rparr>
               else c\<lparr>isoPkts := 1, burstLen := 1\<rparr>);
          c = c\<lparr>enable := True, epType := CY_U3P_USB_EP_ISO,
                 pcktSize := CY_FX_EP_ISO_VIDEO_PKT_SIZE cfg, streams := 0\<rparr>;
          s = s\<lparr>uvcVideoEpCfg := c\<rparr>;
          s = log (SetEpConfig (CY_FX_EP_ISO_VIDEO cfg) c) s
      in if ep_config_status e \<noteq> CY_U3P_SUCCESS
         then (ep_config_status e,
               log (DebugPrint 4 (''CyU3PSetEpConfig failed, Error Code = 0x%x'' @ crlf)
                      [ep_config_status e]) s)
         else (let s = log DmaChannelCreate s
               in if channel_create_status e \<noteq> CY_U3P_SUCCESS
                  then (channel_create_status e,
                        log (DebugPrint 4 (''CyU3PDmaChannelCreate failed, error code = %d'' @ crlf)
                               [channel_create_status e]) s)
                  else (let s = log (UsbFlushEp (CY_FX_EP_ISO_VIDEO cfg)) s;
                            s = log DmaChannelSetXfer s
                        in if set_xfer_status e \<noteq> CY_U3P_SUCCESS
                           then (set_xfer_status e,
                                 log (DebugPrint 4
                                        (''CyU3PDmaChannelSetXfer failed, error code = %d'' @ crlf)
                                        [set_xfer_status e]) s)
                           else (CY_U3P_SUCCESS,
                                 log (DebugPrint 3 (''App Started'' @ crlf) [])
                                   (s\<lparr>glIsApplnActive := True\<rparr>)))))"

definition CyFxUVCApplnStop :: "config \<Rightarrow> state \<Rightarrow> state" where
  "CyFxUVCApplnStop cfg s =
     (let s = s\<lparr>glIsApplnActive := False\<rparr>;
          s = log DmaChannelDestroy s;
          s = log (UsbFlushEp (CY_FX_EP_ISO_VIDEO cfg)) s;
          s = s\<lparr>uvcVideoEpCfg := (uvcVideoEpCfg s)\<lparr>enable := False\<rparr>\<rparr>;
          s = log (SetEpConfig (CY_FX_EP_ISO_VIDEO cfg) (uvcVideoEpCfg s)) s
      in log (DebugPrint 3 (''App Stopped'' @ crlf) []) s)"

definition CyFxUVCApplnUSBEventCB ::
  "config \<Rightarrow> env \<Rightarrow> CyU3PUsbEventType_t \<Rightarrow> u16 \<Rightarrow> state \<Rightarrow> state" where
  "CyFxUVCApplnUSBEventCB cfg e evtype evdata s =
     (case evtype of
        CY_U3P_USB_EVENT_SETCONF \<Rightarrow>
          (let s = (if glIsApplnActive s then CyFxUVCApplnStop cfg s else s)
           in if evdata \<noteq> 0 then s\<lparr>glIsDevConfigured := True\<rparr> else s)
      | CY_U3P_USB_EVENT_SETINTF \<Rightarrow>
          (let interface = CY_U3P_GET_MSB evdata;
               altSetting = CY_U3P_GET_LSB evdata;
               s = (if glIsApplnActive s then CyFxUVCApplnStop cfg s else s)
           in if interface = CY_FX_UVC_INTERFACE_VS cfg \<and> altSetting \<noteq> 0
              then snd (CyFxUVCApplnStart cfg e s) else s)
      | CY_U3P_USB_EVENT_RESET \<Rightarrow>
          (let s = (if glIsApplnActive s then CyFxUVCApplnStop cfg s else s)
           in s\<lparr>glIsDevConfigured := False\<rparr>)
      | CY_U3P_USB_EVENT_DISCONNECT \<Rightarrow>
          (let s = (if glIsApplnActive s then CyFxUVCApplnStop cfg s else s)
           in s\<lparr>glIsDevConfigured := False\<rparr>)
      | _ \<Rightarrow> s)"

subsection \<open>CyFxUVCAddHeader\<close>

definition CyFxUVCAddHeader :: "config \<Rightarrow> bytes \<Rightarrow> u8 \<Rightarrow> state \<Rightarrow> bytes \<times> state" where
  "CyFxUVCAddHeader cfg buffer_p frameInd s =
     (let buffer_p = CyU3PMemCopy buffer_p 0 (glUVCHeader s) 0 (unat (CY_FX_UVC_MAX_HEADER cfg))
      in if frameInd = CY_FX_UVC_HEADER_EOF cfg
         then (buffer_p(1 := buffer_p 1 OR CY_FX_UVC_HEADER_EOF cfg),
               s\<lparr>glUVCHeader := (glUVCHeader s)
                    (1 := glUVCHeader s 1 XOR CY_FX_UVC_HEADER_FRAME_ID cfg)\<rparr>)
         else (buffer_p, s))"

subsection \<open>The producer loop of UVCAppThread_Entry\<close>

text \<open>
  The block that commits the buffer is written twice in the source, after the
  intermediate packet and after the last packet of a frame; the two copies differ only
  in the value \<^verbatim>\<open>CurrentMultVal\<close> is compared with, which is the parameter
  \<open>expected\<close> here.
\<close>

definition commit_chunk :: "config \<Rightarrow> env \<Rightarrow> nat \<Rightarrow> locals \<Rightarrow> state \<Rightarrow> locals \<times> state" where
  "commit_chunk cfg e expected l s =
     (if usb_speed e = CY_U3P_HIGH_SPEED
      then (if unat (CurrentMultVal s) \<noteq> expected
            then (let s = CyU3PUsbSetEpNak (CY_FX_EP_ISO_VIDEO cfg) True s;
                      s = CyU3PBusyWait 10 s;
                      (l, s) = CyU3PDmaChannelCommitBuffer e l s;
                      s = CyU3PBusyWait 20 s;
                      s = CyFxUvcAppSetMultByEpm (CY_FX_EP_ISO_VIDEO cfg AND 0x0F) s;
                      s = CyU3PUsbSetEpNak (CY_FX_EP_ISO_VIDEO cfg) False s
                  in (l, s))
            else CyU3PDmaChannelCommitBuffer e l s)
      else CyU3PDmaChannelCommitBuffer e l s)"

definition payload_size :: "config \<Rightarrow> u32" where
  "payload_size cfg = CY_FX_UVC_STREAM_BUF_SIZE cfg - CY_FX_UVC_MAX_HEADER cfg"

text \<open>
  One pass through the body of \<^verbatim>\<open>while (glIsApplnActive)\<close>.  The first component of
  the result tells whether the body left the loop by \<^verbatim>\<open>break\<close>.
\<close>

definition loop_body :: "config \<Rightarrow> env \<Rightarrow> locals \<Rightarrow> state \<Rightarrow> bool \<times> locals \<times> state" where
  "loop_body cfg e l s =
     (let (l, s) = CyU3PDmaChannelGetBuffer e l s
      in if status l \<noteq> CY_U3P_SUCCESS then (True, l, s)
         else if frameOffset l + payload_size cfg < glVidFrameLen cfg (unat (frameIndex l))
         then (let l = l\<lparr>dmaBuffer := CyU3PMemCopy (dmaBuffer l) (unat (CY_FX_UVC_MAX_HEADER cfg))
                              (glUVCVidFrames cfg) (unat (frameStart l + frameOffset l))
                              (unat (payload_size cfg))\<rparr>;
                   (b, s) = CyFxUVCAddHeader cfg (dmaBuffer l) (CY_FX_UVC_HEADER_FRAME cfg) s;
                   l = l\<lparr>dmaBuffer := b\<rparr>;
                   s = CyU3PThreadSleep 3 s;
                   l = l\<lparr>commitLength := ucast (CY_FX_UVC_STREAM_BUF_SIZE cfg)\<rparr>;
                   (l, s) = commit_chunk cfg e (CY_FX_EP_ISO_VIDEO_PKTS_COUNT cfg) l s
               in if status l \<noteq> CY_U3P_SUCCESS then (True, l, s)
                  else (False, l\<lparr>frameOffset := frameOffset l + payload_size cfg\<rparr>, s))
         else (let l = l\<lparr>dmaBuffer := CyU3PMemCopy (dmaBuffer l) (unat (CY_FX_UVC_MAX_HEADER cfg))
                              (glUVCVidFrames cfg) (unat (frameStart l + frameOffset l))
                              (unat (glVidFrameLen cfg (unat (frameIndex l)) - frameOffset l))\<rparr>;
                   s = CyU3PThreadSleep 3 s;
                   l = l\<lparr>commitLength := ucast ((glVidFrameLen cfg (unat (frameIndex l)) - frameOffset l)
                                                  + CY_FX_UVC_MAX_HEADER cfg)\<rparr>;
                   (b, s) = CyFxUVCAddHeader cfg (dmaBuffer l) (CY_FX_UVC_HEADER_EOF cfg) s;
                   l = l\<lparr>dmaBuffer := b\<rparr>;
                   (l, s) = commit_chunk cfg e (unat (commitLength l) div 1024 + 1) l s
               in if status l \<noteq> CY_U3P_SUCCESS then (True, l, s)
                  else (let l = l\<lparr>frameOffset := 0,
                                    frameStart := frameStart l + glVidFrameLen cfg (unat (frameIndex l)),
                                    frameIndex := frameIndex l + 1\<rparr>
                        in (False,
                            (if frameIndex l \<ge> CY_FX_UVC_MAX_VID_FRAMES cfg
                             then l\<lparr>frameIndex := 0, frameStart := 0\<rparr> else l),
                            s))))"

text \<open>
  The loop \<^verbatim>\<open>while (glIsApplnActive)\<close>, run over the list of what the environment
  supplies to its passes.  \<open>Exited\<close>: the loop was left, by its condition or by
  \<^verbatim>\<open>break\<close>.  \<open>Running\<close>: the inputs are used up and the thread is still inside the loop.
  \<^verbatim>\<open>CyFxUVCApplnUSBEventCB\<close> runs in the context of the USB driver; the body of the loop
  does not read \<^verbatim>\<open>glIsApplnActive\<close>, so what the callback does to the flag during a pass
  (\<^verbatim>\<open>CyFxUVCApplnStop\<close>, or \<^verbatim>\<open>CyFxUVCApplnStop\<close> and then \<^verbatim>\<open>CyFxUVCApplnStart\<close>)
  takes effect where the flag is read next, at the loop condition or at the test after
  the loop.
\<close>

datatype run = Exited locals state | Running locals state

definition usb_event_handled :: "config \<Rightarrow> env \<Rightarrow> state \<Rightarrow> state" where
  "usb_event_handled cfg e s =
     (case usb_event e of
        None \<Rightarrow> s
      | Some (evtype, evdata) \<Rightarrow> CyFxUVCApplnUSBEventCB cfg e evtype evdata s)"

fun video_streamer :: "config \<Rightarrow> env list \<Rightarrow> locals \<Rightarrow> state \<Rightarrow> run" where
  "video_streamer cfg [] l s = (if \<not> glIsApplnActive s then Exited l s else Running l s)"
| "video_streamer cfg (e # es) l s =
     (if \<not> glIsApplnActive s then Exited l s
      else (case loop_body cfg e l s of
              (brk, l', s') \<Rightarrow>
                (let s'' = usb_event_handled cfg e s'
                 in if brk then Exited l' s'' else video_streamer cfg es l' s'')))"

text \<open>
  \<^verbatim>\<open>CyFxAppErrorHandler\<close> sleeps in \<^verbatim>\<open>for (;;)\<close>: it returns on no input.
\<close>

partial_function (option) CyFxAppErrorHandler :: "u32 \<Rightarrow> state \<Rightarrow> state option" where
  "CyFxAppErrorHandler apiRetStatus s = CyFxAppErrorHandler apiRetStatus (CyU3PThreadSleep 100 s)"

text \<open>
  One round of the outer \<^verbatim>\<open>for (;;)\<close> of the thread: the counters and the frame id of
  the header are reset, the streaming loop runs, and after it the error is flagged or the
  thread sleeps and goes round again.  \<open>Halted\<close> carries the state in which the error
  handler was entered.
\<close>

datatype outcome = Streaming locals state | Idle locals state | Halted locals state

definition streamer_error :: "u32 \<Rightarrow> event" where
  "streamer_error st = DebugPrint 4 (''UVC video streamer error. Code %d.'' @ crlf) [st]"

definition thread_round :: "config \<Rightarrow> env list \<Rightarrow> locals \<Rightarrow> state \<Rightarrow> outcome" where
  "thread_round cfg es l s =
     (let l = l\<lparr>frameStart := 0, frameIndex := 0, frameOffset := 0\<rparr>;
          s = s\<lparr>glUVCHeader := (glUVCHeader s)(1 := CY_FX_UVC_HEADER_DEFAULT_BFH cfg)\<rparr>
      in case video_streamer cfg es l s of
           Running l s \<Rightarrow> Streaming l s
         | Exited l s \<Rightarrow>
             (if status l \<noteq> CY_U3P_SUCCESS \<and> glIsApplnActive s
              then (case CyFxAppErrorHandler (status l) (log (streamer_error (status l)) s) of
                      None \<Rightarrow> Halted l (log (streamer_error (status l)) s)
                    | Some s' \<Rightarrow> Idle l (CyU3PThreadSleep 100 s'))
              else Idle l (CyU3PThreadSleep 100 s)))"

subsection \<open>Observations\<close>

text \<open>The addresses of the two registers of an endpoint, and the fields read from them.\<close>

definition cfg_addr :: "u8 \<Rightarrow> u32" where
  "cfg_addr ep = FX3_USB2_INEP_CFG_ADDR_BASE + 4 * ucast ep"

definition epm_addr :: "u8 \<Rightarrow> u32" where
  "epm_addr ep = FX3_USB2_INEP_EPM_ADDR_BASE + 4 * ucast ep"

definition mult_field :: "u32 \<Rightarrow> u32" where
  "mult_field v = drop_bit FX3_USB2_INEP_MULT_POS (v AND FX3_USB2_INEP_MULT_MASK)"

definition epm_ready :: "u32 \<Rightarrow> bool" where
  "epm_ready v = (v AND FX3_USB2_INEP_EPM_READY_MASK \<noteq> 0)"

definition bytes_ready :: "u32 \<Rightarrow> nat" where
  "bytes_ready v =
     unat (drop_bit FX3_USB2_INEP_EPM_DSIZE_POS (v AND FX3_USB2_INEP_EPM_DSIZE_MASK))"

text \<open>The SDK calls a step has added to the trace.\<close>

definition new_events :: "state \<Rightarrow> state \<Rightarrow> event list" where
  "new_events s s' = drop (length (trace s)) (trace s')"

text \<open>The multiplier as the specification words it: \<open>clamp(ceil(bytes_ready / 1024), 1, 3)\<close>.\<close>

definition clamp_ceil :: "nat \<Rightarrow> nat" where
  "clamp_ceil n = max 1 (min 3 ((n + 1023) div 1024))"

subsection \<open>Observations on a pass of the loop\<close>

text \<open>The SDK calls of the block that commits with the endpoint set to NAK, in the order of
  lines 692 to 697 (and 742 to 747) of the source.\<close>

definition nak_sequence :: "u8 \<Rightarrow> u16 \<Rightarrow> u32 \<Rightarrow> event list" where
  "nak_sequence ep len v =
     [UsbSetEpNak ep True, BusyWait 10, DmaChannelCommitBuffer len, BusyWait 20,
      RegWrite (cfg_addr (ep AND 0x0F)) v, UsbSetEpNak ep False]"

text \<open>The test of line 671, negated: the packet is the last one of its frame.\<close>

definition is_last_packet :: "config \<Rightarrow> locals \<Rightarrow> bool" where
  "is_last_packet cfg l =
     (\<not> frameOffset l + payload_size cfg < glVidFrameLen cfg (unat (frameIndex l)))"

text \<open>The value the pass assigns to \<^verbatim>\<open>commitLength\<close>.\<close>

definition chunk_length :: "config \<Rightarrow> locals \<Rightarrow> u16" where
  "chunk_length cfg l =
     (if is_last_packet cfg l
      then ucast ((glVidFrameLen cfg (unat (frameIndex l)) - frameOffset l) + CY_FX_UVC_MAX_HEADER cfg)
      else ucast (CY_FX_UVC_STREAM_BUF_SIZE cfg))"

text \<open>The value \<^verbatim>\<open>CurrentMultVal\<close> is compared with before the commit (lines 690 and 740).\<close>

definition implied_mult :: "config \<Rightarrow> locals \<Rightarrow> nat" where
  "implied_mult cfg l =
     (if is_last_packet cfg l then unat (chunk_length cfg l) div 1024 + 1
      else CY_FX_EP_ISO_VIDEO_PKTS_COUNT cfg)"

text \<open>The two tests that guard the NAK block.\<close>

definition retunes :: "config \<Rightarrow> env \<Rightarrow> nat \<Rightarrow> state \<Rightarrow> bool" where
  "retunes cfg e expected s =
     (usb_speed e = CY_U3P_HIGH_SPEED \<and> unat (CurrentMultVal s) \<noteq> expected)"

text \<open>A buffer after the header has been put in front of it.\<close>

definition stamped :: "config \<Rightarrow> bytes \<Rightarrow> bytes \<Rightarrow> bool \<Rightarrow> bytes" where
  "stamped cfg hdr b eof =
     (\<lambda>i. if eof \<and> i = 1
          then (if 1 < unat (CY_FX_UVC_MAX_HEADER cfg) then hdr 1 else b 1) OR CY_FX_UVC_HEADER_EOF cfg
          else if i < unat (CY_FX_UVC_MAX_HEADER cfg) then hdr i else b i)"

text \<open>The buffer handed out by the DMA channel after the video data has been copied in.\<close>

definition payload :: "config \<Rightarrow> env \<Rightarrow> locals \<Rightarrow> bytes" where
  "payload cfg e l =
     CyU3PMemCopy (get_buffer e) (unat (CY_FX_UVC_MAX_HEADER cfg)) (glUVCVidFrames cfg)
       (unat (frameStart l + frameOffset l))
       (if is_last_packet cfg l
        then unat (glVidFrameLen cfg (unat (frameIndex l)) - frameOffset l)
        else unat (payload_size cfg))"

text \<open>The counters after a pass that committed its buffer.\<close>

definition next_cursor :: "config \<Rightarrow> locals \<Rightarrow> locals \<Rightarrow> bool" where
  "next_cursor cfg l l' =
     (if is_last_packet cfg l
      then frameOffset l' = 0
         \<and> frameIndex l' = (if frameIndex l + 1 \<ge> CY_FX_UVC_MAX_VID_FRAMES cfg then 0
                             else frameIndex l + 1)
         \<and> frameStart l' = (if frameIndex l + 1 \<ge> CY_FX_UVC_MAX_VID_FRAMES cfg then 0
                             else frameStart l + glVidFrameLen cfg (unat (frameIndex l)))
      else frameOffset l' = frameOffset l + payload_size cfg
         \<and> frameIndex l' = frameIndex l \<and> frameStart l' = frameStart l)"

text \<open>
  The order the specification gives for a retuning commit: a write to a register comes
  before the first commit in the list of calls.
\<close>

fun is_reg_write :: "event \<Rightarrow> bool" where
  "is_reg_write (RegWrite a v) = True"
| "is_reg_write _ = False"

fun is_commit :: "event \<Rightarrow> bool" where
  "is_commit (DmaChannelCommitBuffer n) = True"
| "is_commit _ = False"

definition written_before_commit :: "event list \<Rightarrow> bool" where
  "written_before_commit evs = list_ex is_reg_write (takeWhile (\<lambda>ev. \<not> is_commit ev) evs)"

text \<open>The three components of the result of a pass.\<close>

definition pass_break :: "config \<Rightarrow> env \<Rightarrow> locals \<Rightarrow> state \<Rightarrow> bool" where
  "pass_break cfg e l s = fst (loop_body cfg e l s)"

definition pass_locals :: "config \<Rightarrow> env \<Rightarrow> locals \<Rightarrow> state \<Rightarrow> locals" where
  "pass_locals cfg e l s = fst (snd (loop_body cfg e l s))"

definition pass_state :: "config \<Rightarrow> env \<Rightarrow> locals \<Rightarrow> state \<Rightarrow> state" where
  "pass_state cfg e l s = snd (snd (loop_body cfg e l s))"

subsection \<open>Observations on a run of the loop\<close>

text \<open>The state a run or a round ends in.\<close>

fun run_state :: "run \<Rightarrow> state" where
  "run_state (Exited l s) = s"
| "run_state (Running l s) = s"

fun outcome_state :: "outcome \<Rightarrow> state" where
  "outcome_state (Streaming l s) = s"
| "outcome_state (Idle l s) = s"
| "outcome_state (Halted l s) = s"

text \<open>The buffers committed between two states, and the EOF mark of a committed buffer.\<close>

definition new_chunks :: "state \<Rightarrow> state \<Rightarrow> (bytes \<times> u16) list" where
  "new_chunks s s' = drop (length (dma_out s)) (dma_out s')"

definition chunk_eof :: "config \<Rightarrow> bytes \<times> u16 \<Rightarrow> bool" where
  "chunk_eof cfg c = (fst c 1 AND CY_FX_UVC_HEADER_EOF cfg \<noteq> 0)"

text \<open>Every SDK call of a pass succeeds.\<close>

definition calls_succeed :: "env \<Rightarrow> bool" where
  "calls_succeed e = (get_status e = CY_U3P_SUCCESS \<and> commit_status e = CY_U3P_SUCCESS)"

text \<open>
  Conditions on the macros of the header file.  The header bits: the EOF value is not
  zero, shares no bit with the frame id or with the default bit field, differs from the
  value that marks an ordinary packet, and byte 1 lies inside the header.  The sizes: the
  header is shorter than the buffer, whose size fits the 16 bits of \<^verbatim>\<open>commitLength\<close>.
\<close>

definition header_bits_ok :: "config \<Rightarrow> bool" where
  "header_bits_ok cfg =
     (CY_FX_UVC_HEADER_EOF cfg \<noteq> 0
      \<and> CY_FX_UVC_HEADER_FRAME_ID cfg AND CY_FX_UVC_HEADER_EOF cfg = 0
      \<and> CY_FX_UVC_HEADER_DEFAULT_BFH cfg AND CY_FX_UVC_HEADER_EOF cfg = 0
      \<and> CY_FX_UVC_HEADER_FRAME cfg \<noteq> CY_FX_UVC_HEADER_EOF cfg
      \<and> 1 < unat (CY_FX_UVC_MAX_HEADER cfg))"

definition sizes_ok :: "config \<Rightarrow> bool" where
  "sizes_ok cfg =
     (unat (CY_FX_UVC_MAX_HEADER cfg) < unat (CY_FX_UVC_STREAM_BUF_SIZE cfg)
      \<and> unat (CY_FX_UVC_STREAM_BUF_SIZE cfg) < 2 ^ 16)"

subsection \<open>The packets of a frame, as the specification describes them\<close>

text \<open>
  For a buffer capacity \<open>C\<close>, a header length \<open>H\<close>, a position \<open>pos\<close> in the frame
  store and \<open>rem\<close> bytes of the frame remaining: while more than \<open>C - H\<close> bytes remain, a
  packet of the full capacity carrying \<open>C - H\<close> bytes, not marked EOF; then one last
  packet carrying what remains, of that many bytes plus the header, marked EOF.  Each
  entry is the committed length, the EOF mark, and the position and count of the bytes
  copied.
\<close>

function frame_chunks_spec :: "nat \<Rightarrow> nat \<Rightarrow> nat \<Rightarrow> nat \<Rightarrow> (nat \<times> bool \<times> nat \<times> nat) list" where
  "frame_chunks_spec C H pos rem =
     (if H < C \<and> C - H < rem
      then (C, False, pos, C - H) # frame_chunks_spec C H (pos + (C - H)) (rem - (C - H))
      else [(rem + H, True, pos, rem)])"
  by pat_completeness auto
termination
  by (relation "measure (\<lambda>(C, H, pos, rem). rem)") auto

text \<open>
  A committed buffer agrees with an entry: its committed length and EOF mark are those
  of the entry, behind the header it holds the \<open>cnt\<close> bytes of the frame store from
  \<open>pos\<close> on, and behind those it is as the DMA channel handed it out.
\<close>

definition chunk_matches ::
  "config \<Rightarrow> env \<times> (bytes \<times> u16) \<Rightarrow> nat \<times> bool \<times> nat \<times> nat \<Rightarrow> bool" where
  "chunk_matches cfg ec x =
     (case (ec, x) of
        ((e, c), (n, eof, pos, cnt)) \<Rightarrow>
          unat (snd c) = n \<and> chunk_eof cfg c = eof
          \<and> (\<forall>i<cnt. fst c (unat (CY_FX_UVC_MAX_HEADER cfg) + i) = glUVCVidFrames cfg (pos + i))
          \<and> (\<forall>i. unat (CY_FX_UVC_MAX_HEADER cfg) + cnt \<le> i \<longrightarrow> fst c i = get_buffer e i))"

text \<open>A pass in which every SDK call succeeds and no USB event is handled.\<close>

definition undisturbed :: "env \<Rightarrow> bool" where
  "undisturbed e = (calls_succeed e \<and> usb_event e = None)"

text \<open>The sizes as numbers: the capacity of a buffer, the length of the header, and the
  length of the frame the counters point at.\<close>

abbreviation capacity :: "config \<Rightarrow> nat" where
  "capacity cfg \<equiv> unat (CY_FX_UVC_STREAM_BUF_SIZE cfg)"

abbreviation header_len :: "config \<Rightarrow> nat" where
  "header_len cfg \<equiv> unat (CY_FX_UVC_MAX_HEADER cfg)"

abbreviation cur_frame_len :: "config \<Rightarrow> locals \<Rightarrow> nat" where
  "cur_frame_len cfg l \<equiv> unat (glVidFrameLen cfg (unat (frameIndex l)))"

subsection \<open>Whole frames of the playlist\<close>

text \<open>
  The playlist as the tables give it, independent of what the loop does: the position
  of frame \<open>i\<close> in the frame store (the sum of the lengths of the frames before it), the
  frame that follows frame \<open>i\<close> (the first one again after the last), the frame reached
  after \<open>n\<close> whole frames, and the number of packets (passes of the loop) that \<open>n\<close> whole
  frames take, frame by frame, by the packet list of the specification.  The playlist is
  well-formed when it holds a frame and the lengths of all its frames, with one payload
  more, stay below \<open>2 ^ 32\<close>, so that the 32 bit counters do not wrap.
\<close>

definition frame_start_of :: "config \<Rightarrow> nat \<Rightarrow> nat" where
  "frame_start_of cfg i = sum_list (map (\<lambda>j. unat (glVidFrameLen cfg j)) [0..<i])"

definition next_frame :: "config \<Rightarrow> nat \<Rightarrow> nat" where
  "next_frame cfg i = (if unat (CY_FX_UVC_MAX_VID_FRAMES cfg) \<le> i + 1 then 0 else i + 1)"

fun frame_after :: "config \<Rightarrow> nat \<Rightarrow> nat \<Rightarrow> nat" where
  "frame_after cfg i 0 = i"
| "frame_after cfg i (Suc n) = frame_after cfg (next_frame cfg i) n"

fun frames_passes :: "config \<Rightarrow> nat \<Rightarrow> nat \<Rightarrow> nat" where
  "frames_passes cfg i 0 = 0"
| "frames_passes cfg i (Suc n) =
     length (frame_chunks_spec (capacity cfg) (header_len cfg) (frame_start_of cfg i)
               (unat (glVidFrameLen cfg i)))
     + frames_passes cfg (next_frame cfg i) n"

definition playlist_ok :: "config \<Rightarrow> bool" where
  "playlist_ok cfg =
     (0 < unat (CY_FX_UVC_MAX_VID_FRAMES cfg)
      \<and> frame_start_of cfg (unat (CY_FX_UVC_MAX_VID_FRAMES cfg)) + unat (payload_size cfg) < 2 ^ 32)"

subsection \<open>Concrete inputs\<close>

text \<open>
  The values the C file gives its globals, with all registers zero; the same state with
  a given content of the EEPM_ENDPOINT register of endpoint 3.
\<close>

definition boot_ep_cfg :: CyU3PEpConfig_t where
  "boot_ep_cfg =
     \<lparr>enable = False, epType = CY_U3P_USB_EP_CONTROL, streams = 0, pcktSize = 0,
      burstLen = 0, isoPkts = 0\<rparr>"

definition boot_state :: state where
  "boot_state =
     \<lparr>regs = (\<lambda>a. 0), CurrentMultVal = 1,
      glUVCHeader = (\<lambda>i. if i = 0 then 0x0C else if i = 1 then 0x8C else 0),
      glIsApplnActive = False, glIsDevConfigured = False, uvcVideoEpCfg = boot_ep_cfg,
      trace = [], dma_out = []\<rparr>"

definition with_epm :: "u32 \<Rightarrow> state" where
  "with_epm v = boot_state\<lparr>regs := (regs boot_state)(epm_addr 3 := v)\<rparr>"

text \<open>
  A build with the playlist of the specification's scenario: frames of 5000, 200 and
  10000 bytes, a 12 byte header and buffers of 1012 bytes (1000 bytes of payload), with
  the header bits of the UVC payload header (frame id in bit 0, end of frame in bit 1).
\<close>

definition scenario_cfg :: config where
  "scenario_cfg =
     \<lparr>CY_FX_UVC_STREAM_BUF_SIZE = 1012, CY_FX_UVC_MAX_HEADER = 12,
      CY_FX_UVC_HEADER_FRAME = 0, CY_FX_UVC_HEADER_EOF = 2, CY_FX_UVC_HEADER_FRAME_ID = 1,
      CY_FX_UVC_HEADER_DEFAULT_BFH = 0x8C, CY_FX_EP_ISO_VIDEO = 0x83,
      CY_FX_EP_ISO_VIDEO_PKTS_COUNT = 1, CY_FX_EP_ISO_VIDEO_PKT_SIZE = 1024,
      CY_FX_EP_ISO_VIDEO_SS_MULT = 1, CY_FX_EP_ISO_VIDEO_SS_BURST = 1,
      CY_FX_UVC_INTERFACE_VS = 1, CY_FX_UVC_MAX_VID_FRAMES = 3,
      glVidFrameLen = (\<lambda>i. if i = 0 then 5000 else if i = 1 then 200
                             else if i = 2 then 10000 else 0),
      glUVCVidFrames = (\<lambda>i. of_nat i)\<rparr>"

text \<open>
  An environment in which every SDK call succeeds and no USB event arrives, at a given
  speed; the locals at the start of a round; and a state of an active stream (as
  \<^verbatim>\<open>CyFxUVCApplnStart\<close> leaves the endpoint configuration at high speed) in which the
  endpoint memory holds 2500 bytes and the multiplier 3 has been cached and programmed.
\<close>

definition ok_env :: "CyU3PUSBSpeed_t \<Rightarrow> env" where
  "ok_env sp =
     \<lparr>get_status = CY_U3P_SUCCESS, get_buffer = (\<lambda>i. 0xFF), usb_speed = sp,
      commit_status = CY_U3P_SUCCESS, usb_event = None,
      ep_config_status = CY_U3P_SUCCESS, channel_create_status = CY_U3P_SUCCESS,
      set_xfer_status = CY_U3P_SUCCESS\<rparr>"

definition streaming_ep_cfg :: CyU3PEpConfig_t where
  "streaming_ep_cfg =
     \<lparr>enable = True, epType = CY_U3P_USB_EP_ISO, streams = 0, pcktSize = 1024,
      burstLen = 1, isoPkts = 1\<rparr>"

definition start_locals :: locals where
  "start_locals =
     \<lparr>dmaBuffer = (\<lambda>i. 0), commitLength = 0, frameStart = 0, frameIndex = 0,
      frameOffset = 0, status = CY_U3P_SUCCESS\<rparr>"

definition busy_state :: state where
  "busy_state =
     \<lparr>regs = (\<lambda>a. if a = 0xe0031c4c then 0x404E2000 else if a = 0xe0031424 then 0x3000 else 0),
      CurrentMultVal = 3,
      glUVCHeader = (\<lambda>i. if i = 0 then 0x0C else if i = 1 then 0x8C else 0),
      glIsApplnActive = True, glIsDevConfigured = True, uvcVideoEpCfg = streaming_ep_cfg,
      trace = [], dma_out = []\<rparr>"

text \<open>
  The scenario's build with an empty first frame, and an environment whose
  \<^verbatim>\<open>CyU3PDmaChannelGetBuffer\<close> fails while the USB event callback handles a given
  event, or none.  The data of a \<^verbatim>\<open>SETINTF\<close> event hold the interface in the high byte
  and the alternate setting in the low byte: \<open>0x0100\<close> selects alternate setting 0 of the
  streaming interface of the scenario's build, \<open>0x0101\<close> its alternate setting 1.
\<close>

definition empty_frame_cfg :: config where
  "empty_frame_cfg = scenario_cfg\<lparr>glVidFrameLen := (\<lambda>i. if i = 0 then 0 else 200)\<rparr>"

definition fail_env :: "(CyU3PUsbEventType_t \<times> u16) option \<Rightarrow> env" where
  "fail_env ev =
     \<lparr>get_status = 0x45, get_buffer = (\<lambda>i. 0xFF), usb_speed = CY_U3P_HIGH_SPEED,
      commit_status = CY_U3P_SUCCESS, usb_event = ev,
      ep_config_status = CY_U3P_SUCCESS, channel_create_status = CY_U3P_SUCCESS,
      set_xfer_status = CY_U3P_SUCCESS\<rparr>"

section \<open>Properties\<close>

subsection \<open>Bit fields and the clamp\<close>

lemma field_in: "(((v::u32) AND NOT m) OR x) AND m = x AND m"
  by (auto simp: bit_eq_iff bit_simps)

lemma field_out: "(((v::u32) AND NOT m) OR x) AND NOT m = (v AND NOT m) OR (x AND NOT m)"
  by (auto simp: bit_eq_iff bit_simps)

lemma clamp_nat: "unat (CY_U3P_MAX (CY_U3P_MIN x 3) 1) = max 1 (min 3 (unat x))"
  unfolding CY_U3P_MAX_def CY_U3P_MIN_def
  by (auto simp: word_less_nat_alt)

lemma clamp_cases: "CY_U3P_MAX (CY_U3P_MIN x 3) 1 \<in> {1,2,3}"
proof -
  let ?c = "CY_U3P_MAX (CY_U3P_MIN x 3) 1"
  have "unat ?c = 1 \<or> unat ?c = 2 \<or> unat ?c = 3"
    unfolding clamp_nat by (auto simp: max_def min_def)
  then have "?c = 1 \<or> ?c = 2 \<or> ?c = 3"
    by (simp add: word_unat_eq_iff)
  then show ?thesis by auto
qed

lemma shifted_mult:
  assumes "x \<in> {1,2,3::u8}"
  shows "push_bit FX3_USB2_INEP_MULT_POS (ucast x :: u32) AND FX3_USB2_INEP_MULT_MASK
           = push_bit FX3_USB2_INEP_MULT_POS (ucast x)"
    and "push_bit FX3_USB2_INEP_MULT_POS (ucast x :: u32) AND NOT FX3_USB2_INEP_MULT_MASK = 0"
    and "unat (drop_bit FX3_USB2_INEP_MULT_POS
           (push_bit FX3_USB2_INEP_MULT_POS (ucast x :: u32))) = unat x"
  using assms unfolding FX3_USB2_INEP_MULT_POS_def FX3_USB2_INEP_MULT_MASK_def by auto

lemma dsize_bound: "bytes_ready v < 65536"
proof -
  have "drop_bit 11 (v AND 0x07FFF800) = drop_bit 11 v AND 0xFFFF"
    by (simp add: bit_eq_iff bit_simps)
  also have "\<dots> \<le> 0xFFFF" by (rule word_and_le1)
  finally show ?thesis
    by (simp add: word_le_nat_alt bytes_ready_def FX3_USB2_INEP_EPM_DSIZE_POS_def
        FX3_USB2_INEP_EPM_DSIZE_MASK_def)
qed

lemma raw_nat:
  assumes "unat (d::u32) < 65536"
  shows "unat (ucast (d div 1024 + 1) :: u8) = unat d div 1024 + 1"
proof -
  have b: "unat d div 1024 < 64" using assms by simp
  have "unat (d div 1024 + 1) = unat d div 1024 + 1"
    using assms by (simp add: unat_word_ariths unat_div)
  then show ?thesis using b by (simp add: unsigned_ucast_eq take_bit_eq_mod)
qed

subsection \<open>Effects of CyFxUvcAppSetMultByEpm\<close>

lemma SetMult_cache:
  "unat (CurrentMultVal (CyFxUvcAppSetMultByEpm ep s)) =
     (if epm_ready (regs s (epm_addr ep))
      then bytes_ready (regs s (epm_addr ep)) div 1024 + 1 else 0)"
  using raw_nat[OF dsize_bound[of "regs s (epm_addr ep)", unfolded bytes_ready_def]]
  by (simp add: CyFxUvcAppSetMultByEpm_def Let_def log_def epm_ready_def bytes_ready_def
      epm_addr_def)

lemma SetMult_reg:
  "regs (CyFxUvcAppSetMultByEpm ep s) =
     (regs s)(cfg_addr ep := (regs s (cfg_addr ep) AND NOT FX3_USB2_INEP_MULT_MASK) OR
        push_bit FX3_USB2_INEP_MULT_POS
          (ucast (CY_U3P_MAX (CY_U3P_MIN (CurrentMultVal (CyFxUvcAppSetMultByEpm ep s)) 3) 1)))"
  by (simp add: CyFxUvcAppSetMultByEpm_def Let_def log_def cfg_addr_def)

lemma SetMult_field:
  "unat (mult_field (regs (CyFxUvcAppSetMultByEpm ep s) (cfg_addr ep))) =
     max 1 (min 3 (unat (CurrentMultVal (CyFxUvcAppSetMultByEpm ep s))))"
  using shifted_mult[OF clamp_cases[of "CurrentMultVal (CyFxUvcAppSetMultByEpm ep s)"]]
  by (simp add: SetMult_reg mult_field_def field_in clamp_nat)

lemma SetMult_outside:
  "regs (CyFxUvcAppSetMultByEpm ep s) (cfg_addr ep) AND NOT FX3_USB2_INEP_MULT_MASK
     = regs s (cfg_addr ep) AND NOT FX3_USB2_INEP_MULT_MASK"
  using shifted_mult[OF clamp_cases[of "CurrentMultVal (CyFxUvcAppSetMultByEpm ep s)"]]
  by (simp add: SetMult_reg field_out)

lemma SetMult_trace:
  "trace (CyFxUvcAppSetMultByEpm ep s) =
     trace s @ [RegWrite (cfg_addr ep) (regs (CyFxUvcAppSetMultByEpm ep s) (cfg_addr ep))]"
  by (simp add: CyFxUvcAppSetMultByEpm_def Let_def log_def cfg_addr_def)

lemma SetMult_frame:
  "glUVCHeader (CyFxUvcAppSetMultByEpm ep s) = glUVCHeader s"
  "glIsApplnActive (CyFxUvcAppSetMultByEpm ep s) = glIsApplnActive s"
  "dma_out (CyFxUvcAppSetMultByEpm ep s) = dma_out s"
  by (simp_all add: CyFxUvcAppSetMultByEpm_def Let_def log_def)

lemma with_epm_regs:
  "regs (with_epm v) (epm_addr 3) = v"
  "regs (with_epm v) (cfg_addr 3) = 0"
  by (simp_all add: with_epm_def boot_state_def epm_addr_def cfg_addr_def
      FX3_USB2_INEP_CFG_ADDR_BASE_def FX3_USB2_INEP_EPM_ADDR_BASE_def)

lemma epm_samples:
  "epm_ready 0x40200000" "bytes_ready 0x40200000 = 1024"
  "epm_ready 0x404E2000" "bytes_ready 0x404E2000 = 2500"
  "\<not> epm_ready 0" "epm_ready 0x40000000" "bytes_ready 0x40000000 = 0"
  by (simp_all add: epm_ready_def bytes_ready_def FX3_USB2_INEP_EPM_READY_MASK_def
      FX3_USB2_INEP_EPM_DSIZE_MASK_def FX3_USB2_INEP_EPM_DSIZE_POS_def)

lemma SetMult_others:
  "(regs (CyFxUvcAppSetMultByEpm ep s))(cfg_addr ep := x) = (regs s)(cfg_addr ep := x)"
  by (simp add: SetMult_reg)

lemma SetMult_new_events:
  "new_events s (CyFxUvcAppSetMultByEpm ep s)
     = [RegWrite (cfg_addr ep) (regs (CyFxUvcAppSetMultByEpm ep s) (cfg_addr ep))]"
  by (simp add: new_events_def SetMult_trace)

lemma scenario_ep:
  "CY_FX_EP_ISO_VIDEO scenario_cfg AND 0x0F = 3" "CY_FX_EP_ISO_VIDEO scenario_cfg = 0x83"
  by (simp_all add: scenario_cfg_def)

lemma with_epm_SetMult_2500:
  "regs (CyFxUvcAppSetMultByEpm 3 (with_epm 0x404E2000)) (cfg_addr 3) = 0x3000"
  by (simp add: CyFxUvcAppSetMultByEpm_def with_epm_def boot_state_def Let_def log_def
      epm_addr_def cfg_addr_def FX3_USB2_INEP_CFG_ADDR_BASE_def FX3_USB2_INEP_EPM_ADDR_BASE_def
      FX3_USB2_INEP_EPM_READY_MASK_def FX3_USB2_INEP_EPM_DSIZE_MASK_def
      FX3_USB2_INEP_EPM_DSIZE_POS_def FX3_USB2_INEP_MULT_MASK_def FX3_USB2_INEP_MULT_POS_def
      CY_U3P_MIN_def CY_U3P_MAX_def)

subsection \<open>The multiplier programmed by CyFxUvcAppSetMultByEpm\<close>

text \<open>
  C1, as the specification states it, fails: with the endpoint memory ready and exactly
  1024 bytes in it, the routine writes 2 into the MULT field, and
  \<open>clamp(ceil(1024 / 1024), 1, 3)\<close> is 1.
\<close>

theorem C1_mult_counterexample:
  "epm_ready (regs (with_epm 0x40200000) (epm_addr 3))
   \<and> unat (mult_field (regs (CyFxUvcAppSetMultByEpm 3 (with_epm 0x40200000)) (cfg_addr 3)))
       \<noteq> clamp_ceil (bytes_ready (regs (with_epm 0x40200000) (epm_addr 3)))"
  by (simp add: SetMult_field SetMult_cache with_epm_regs epm_samples clamp_ceil_def)

text \<open>
  C1, amended: the value CyFxUvcAppSetMultByEpm writes into the MULT field of the
  endpoint's configuration register is \<open>clamp(bytes_ready div 1024 + 1, 1, 3)\<close> when the
  endpoint memory is ready, and 1 when it is not ready; so 2500 bytes give 3, and an
  empty or not-ready endpoint memory gives 1, never 0.
\<close>

theorem C1_mult_programmed:
  "unat (mult_field (regs (CyFxUvcAppSetMultByEpm ep s) (cfg_addr ep))) =
     (if epm_ready (regs s (epm_addr ep))
      then max 1 (min 3 (bytes_ready (regs s (epm_addr ep)) div 1024 + 1))
      else 1)"
  by (simp add: SetMult_field SetMult_cache)

theorem C1_mult_programmed_witness:
  "unat (mult_field (regs (CyFxUvcAppSetMultByEpm 3 (with_epm 0x404E2000)) (cfg_addr 3))) = 3
   \<and> unat (mult_field (regs (CyFxUvcAppSetMultByEpm 3 (with_epm 0)) (cfg_addr 3))) = 1
   \<and> unat (mult_field (regs (CyFxUvcAppSetMultByEpm 3 (with_epm 0x40000000)) (cfg_addr 3))) = 1"
  using C1_mult_programmed[of 3 "with_epm 0x404E2000"] C1_mult_programmed[of 3 "with_epm 0"]
    C1_mult_programmed[of 3 "with_epm 0x40000000"]
  by (simp add: with_epm_regs epm_samples)

text \<open>
  C9: CyFxUvcAppSetMultByEpm changes only the MULT field of the endpoint's configuration
  register: the bits outside \<^verbatim>\<open>FX3_USB2_INEP_MULT_MASK\<close> keep the value read at the
  start of the call, and no other register is written.
\<close>

theorem C9_only_mult_bits_change:
  "regs (CyFxUvcAppSetMultByEpm ep s) (cfg_addr ep) AND NOT FX3_USB2_INEP_MULT_MASK
     = regs s (cfg_addr ep) AND NOT FX3_USB2_INEP_MULT_MASK
   \<and> (regs (CyFxUvcAppSetMultByEpm ep s))(cfg_addr ep := x) = (regs s)(cfg_addr ep := x)"
  by (simp add: SetMult_outside SetMult_others)

subsection \<open>The DMA callback\<close>

text \<open>
  C3, as the specification states it, fails: on a consume event at high speed the
  callback writes the endpoint's configuration register (here 0 becomes 0x3000).
\<close>

theorem C3_callback_counterexample:
  "regs (CyFxUVCAppDmaCallback scenario_cfg CY_U3P_DMA_CB_CONS_EVENT CY_U3P_HIGH_SPEED
           (with_epm 0x404E2000)) (cfg_addr 3)
     \<noteq> regs (with_epm 0x404E2000) (cfg_addr 3)
   \<and> new_events (with_epm 0x404E2000)
        (CyFxUVCAppDmaCallback scenario_cfg CY_U3P_DMA_CB_CONS_EVENT CY_U3P_HIGH_SPEED
           (with_epm 0x404E2000)) = [RegWrite (cfg_addr 3) 0x3000]"
  by (simp add: CyFxUVCAppDmaCallback_def scenario_ep new_events_def SetMult_trace
      with_epm_SetMult_2500 with_epm_regs)

text \<open>
  C3, amended: on a consume event at high speed the callback runs
  CyFxUvcAppSetMultByEpm on the video endpoint: it samples the occupancy again, stores
  the computed multiplier in \<^verbatim>\<open>CurrentMultVal\<close>, and itself writes the MULT field of the
  endpoint's configuration register (one register write, the other bits and registers
  kept).  On any other event or speed it changes nothing.  It never touches the header,
  the active flag or the committed buffers.
\<close>

theorem C3_callback_effect:
  assumes "CyFxUVCAppDmaCallback cfg type speed s = s'"
    and "ep = CY_FX_EP_ISO_VIDEO cfg AND 0x0F"
  shows "(if type = CY_U3P_DMA_CB_CONS_EVENT \<and> speed = CY_U3P_HIGH_SPEED
    then new_events s s' = [RegWrite (cfg_addr ep) (regs s' (cfg_addr ep))]
       \<and> unat (CurrentMultVal s') =
           (if epm_ready (regs s (epm_addr ep))
            then bytes_ready (regs s (epm_addr ep)) div 1024 + 1 else 0)
       \<and> unat (mult_field (regs s' (cfg_addr ep))) = max 1 (min 3 (unat (CurrentMultVal s')))
       \<and> regs s' (cfg_addr ep) AND NOT FX3_USB2_INEP_MULT_MASK
           = regs s (cfg_addr ep) AND NOT FX3_USB2_INEP_MULT_MASK
       \<and> (regs s')(cfg_addr ep := x) = (regs s)(cfg_addr ep := x)
    else s' = s)
   \<and> glUVCHeader s' = glUVCHeader s \<and> glIsApplnActive s' = glIsApplnActive s
   \<and> dma_out s' = dma_out s"
proof (cases "type = CY_U3P_DMA_CB_CONS_EVENT \<and> speed = CY_U3P_HIGH_SPEED")
  case True
  then have s': "s' = CyFxUvcAppSetMultByEpm ep s"
    using assms by (simp add: CyFxUVCAppDmaCallback_def)
  show ?thesis
    unfolding s' using True
    by (simp only: SetMult_new_events SetMult_cache SetMult_field SetMult_outside
        SetMult_others SetMult_frame if_True simp_thms)
next
  case False
  then have "s' = s" using assms by (auto simp: CyFxUVCAppDmaCallback_def)
  then show ?thesis using False by auto
qed

theorem C3_callback_effect_witness:
  "new_events (with_epm 0x404E2000)
     (CyFxUVCAppDmaCallback scenario_cfg CY_U3P_DMA_CB_CONS_EVENT CY_U3P_HIGH_SPEED
        (with_epm 0x404E2000))
     = [RegWrite (cfg_addr 3) (regs (CyFxUVCAppDmaCallback scenario_cfg CY_U3P_DMA_CB_CONS_EVENT
          CY_U3P_HIGH_SPEED (with_epm 0x404E2000)) (cfg_addr 3))]
   \<and> unat (CurrentMultVal (CyFxUVCAppDmaCallback scenario_cfg CY_U3P_DMA_CB_CONS_EVENT
          CY_U3P_HIGH_SPEED (with_epm 0x404E2000))) = 3
   \<and> CyFxUVCAppDmaCallback scenario_cfg CY_U3P_DMA_CB_PROD_EVENT CY_U3P_HIGH_SPEED
        (with_epm 0x404E2000) = with_epm 0x404E2000"
  using C3_callback_effect[where cfg = scenario_cfg and type = CY_U3P_DMA_CB_CONS_EVENT
      and speed = CY_U3P_HIGH_SPEED and s = "with_epm 0x404E2000" and x = 0, OF refl refl]
    C3_callback_effect[where cfg = scenario_cfg and type = CY_U3P_DMA_CB_PROD_EVENT
      and speed = CY_U3P_HIGH_SPEED and s = "with_epm 0x404E2000" and x = 0, OF refl refl]
  by (simp add: scenario_ep with_epm_regs epm_samples)

subsection \<open>One pass of the streaming loop\<close>

lemma SetMult_regs_cong:
  "regs s1 = regs s2 \<Longrightarrow> regs (CyFxUvcAppSetMultByEpm ep s1) = regs (CyFxUvcAppSetMultByEpm ep s2)"
  "regs s1 = regs s2 \<Longrightarrow> CurrentMultVal (CyFxUvcAppSetMultByEpm ep s1) = CurrentMultVal (CyFxUvcAppSetMultByEpm ep s2)"
  by (simp_all add: CyFxUvcAppSetMultByEpm_def Let_def log_def)

lemma commit_chunk_locals:
  "fst (commit_chunk cfg e x l s) = l\<lparr>status := commit_status e\<rparr>"
  by (simp add: commit_chunk_def CyU3PDmaChannelCommitBuffer_def Let_def split: prod.splits)

lemma commit_chunk_dma:
  "dma_out (snd (commit_chunk cfg e x l s)) =
     (if commit_status e = CY_U3P_SUCCESS then dma_out s @ [(dmaBuffer l, commitLength l)]
      else dma_out s)"
  by (simp add: commit_chunk_def CyU3PDmaChannelCommitBuffer_def Let_def SetMult_frame
      CyU3PUsbSetEpNak_def CyU3PBusyWait_def log_def)

lemma commit_chunk_frame:
  "glUVCHeader (snd (commit_chunk cfg e x l s)) = glUVCHeader s"
  "glIsApplnActive (snd (commit_chunk cfg e x l s)) = glIsApplnActive s"
  by (simp_all add: commit_chunk_def CyU3PDmaChannelCommitBuffer_def Let_def SetMult_frame
      CyU3PUsbSetEpNak_def CyU3PBusyWait_def log_def)

lemma commit_chunk_trace:
  "trace (snd (commit_chunk cfg e x l s)) = trace s @
     (if retunes cfg e x s
      then nak_sequence (CY_FX_EP_ISO_VIDEO cfg) (commitLength l)
             (regs (snd (commit_chunk cfg e x l s)) (cfg_addr (CY_FX_EP_ISO_VIDEO cfg AND 0x0F)))
      else [DmaChannelCommitBuffer (commitLength l)])"
  by (simp add: commit_chunk_def CyU3PDmaChannelCommitBuffer_def Let_def SetMult_frame
      CyU3PUsbSetEpNak_def CyU3PBusyWait_def log_def retunes_def nak_sequence_def SetMult_trace)

lemma commit_chunk_regs:
  "regs (snd (commit_chunk cfg e x l s)) =
     (if retunes cfg e x s then regs (CyFxUvcAppSetMultByEpm (CY_FX_EP_ISO_VIDEO cfg AND 0x0F) s)
      else regs s)"
  "CurrentMultVal (snd (commit_chunk cfg e x l s)) =
     (if retunes cfg e x s
      then CurrentMultVal (CyFxUvcAppSetMultByEpm (CY_FX_EP_ISO_VIDEO cfg AND 0x0F) s)
      else CurrentMultVal s)"
  by (auto simp add: commit_chunk_def CyU3PDmaChannelCommitBuffer_def Let_def 
      CyU3PUsbSetEpNak_def CyU3PBusyWait_def log_def retunes_def intro!: SetMult_regs_cong)

lemma AddHeader_eq:
  "CyFxUVCAddHeader cfg b ind s =
     (stamped cfg (glUVCHeader s) b (ind = CY_FX_UVC_HEADER_EOF cfg),
      if ind = CY_FX_UVC_HEADER_EOF cfg
      then s\<lparr>glUVCHeader := (glUVCHeader s)(1 := glUVCHeader s 1 XOR CY_FX_UVC_HEADER_FRAME_ID cfg)\<rparr>
      else s)"
  by (auto simp: CyFxUVCAddHeader_def Let_def stamped_def CyU3PMemCopy_def fun_eq_iff)

lemma loop_body_brk:
  "fst (loop_body cfg e l s) = (get_status e \<noteq> CY_U3P_SUCCESS \<or> commit_status e \<noteq> CY_U3P_SUCCESS)"
  by (simp add: loop_body_def CyU3PDmaChannelGetBuffer_def Let_def case_prod_beta
      commit_chunk_locals)

lemma loop_body_status:
  "status (fst (snd (loop_body cfg e l s))) =
     (if get_status e \<noteq> CY_U3P_SUCCESS then get_status e else commit_status e)"
  by (simp add: loop_body_def CyU3PDmaChannelGetBuffer_def Let_def case_prod_beta
      commit_chunk_locals)

lemma loop_body_cursor:
  "get_status e = CY_U3P_SUCCESS \<Longrightarrow> commit_status e = CY_U3P_SUCCESS \<Longrightarrow>
   next_cursor cfg l (fst (snd (loop_body cfg e l s)))"
  by (simp add: loop_body_def CyU3PDmaChannelGetBuffer_def Let_def case_prod_beta
      commit_chunk_locals next_cursor_def is_last_packet_def)

lemma loop_body_dma:
  "dma_out (snd (snd (loop_body cfg e l s))) =
     (if get_status e = CY_U3P_SUCCESS \<and> commit_status e = CY_U3P_SUCCESS
      then dma_out s @ [(stamped cfg (glUVCHeader s) (payload cfg e l) (is_last_packet cfg l
                            \<or> CY_FX_UVC_HEADER_FRAME cfg = CY_FX_UVC_HEADER_EOF cfg),
                         chunk_length cfg l)]
      else dma_out s)"
  by (simp add: loop_body_def CyU3PDmaChannelGetBuffer_def Let_def case_prod_beta
      commit_chunk_locals commit_chunk_dma AddHeader_eq payload_def chunk_length_def
      is_last_packet_def CyU3PThreadSleep_def log_def)

lemma loop_body_header:
  "glUVCHeader (snd (snd (loop_body cfg e l s))) =
     (if get_status e = CY_U3P_SUCCESS \<and> (is_last_packet cfg l
            \<or> CY_FX_UVC_HEADER_FRAME cfg = CY_FX_UVC_HEADER_EOF cfg)
      then (glUVCHeader s)(1 := glUVCHeader s 1 XOR CY_FX_UVC_HEADER_FRAME_ID cfg)
      else glUVCHeader s)"
  by (simp add: loop_body_def CyU3PDmaChannelGetBuffer_def Let_def case_prod_beta
      commit_chunk_locals commit_chunk_frame AddHeader_eq 
      is_last_packet_def CyU3PThreadSleep_def log_def)

lemma loop_body_active:
  "glIsApplnActive (snd (snd (loop_body cfg e l s))) = glIsApplnActive s"
  by (simp add: loop_body_def CyU3PDmaChannelGetBuffer_def Let_def case_prod_beta
      commit_chunk_locals commit_chunk_frame AddHeader_eq 
      is_last_packet_def CyU3PThreadSleep_def log_def)

lemma retunes_cong:
  "CurrentMultVal s1 = CurrentMultVal s \<Longrightarrow> retunes cfg e x s1 = retunes cfg e x s"
  by (simp add: retunes_def)

lemma AddHeader_keeps:
  "regs (snd (CyFxUVCAddHeader cfg b ind s)) = regs s"
  "CurrentMultVal (snd (CyFxUVCAddHeader cfg b ind s)) = CurrentMultVal s"
  "trace (snd (CyFxUVCAddHeader cfg b ind s)) = trace s"
  by (simp_all add: AddHeader_eq)

lemma loop_body_commit:
  assumes "get_status e = CY_U3P_SUCCESS"
  shows "\<exists>l1 s1. snd (snd (loop_body cfg e l s)) = snd (commit_chunk cfg e (implied_mult cfg l) l1 s1)
           \<and> commitLength l1 = chunk_length cfg l
           \<and> trace s1 = trace s @ [DmaChannelGetBuffer, ThreadSleep 3]
           \<and> CurrentMultVal s1 = CurrentMultVal s \<and> regs s1 = regs s"
proof (cases "commit_status e = CY_U3P_SUCCESS")
  case True
  then show ?thesis
    using assms
    apply (cases "is_last_packet cfg l")
    apply (simp_all add: loop_body_def CyU3PDmaChannelGetBuffer_def Let_def case_prod_beta
      implied_mult_def chunk_length_def is_last_packet_def commit_chunk_locals)
    apply (intro exI conjI, rule refl, simp_all add: CyU3PThreadSleep_def log_def AddHeader_keeps)+
    done
next
  case False
  then show ?thesis
    using assms
    apply (cases "is_last_packet cfg l")
    apply (simp_all add: loop_body_def CyU3PDmaChannelGetBuffer_def Let_def case_prod_beta
      implied_mult_def chunk_length_def is_last_packet_def commit_chunk_locals)
    apply (intro exI conjI, rule refl, simp_all add: CyU3PThreadSleep_def log_def AddHeader_keeps)+
    done
qed

lemma loop_body_trace:
  assumes "get_status e = CY_U3P_SUCCESS"
  shows "trace (snd (snd (loop_body cfg e l s))) = trace s @ [DmaChannelGetBuffer, ThreadSleep 3] @
     (if retunes cfg e (implied_mult cfg l) s
      then nak_sequence (CY_FX_EP_ISO_VIDEO cfg) (chunk_length cfg l)
             (regs (snd (snd (loop_body cfg e l s))) (cfg_addr (CY_FX_EP_ISO_VIDEO cfg AND 0x0F)))
      else [DmaChannelCommitBuffer (chunk_length cfg l)])"
proof -
  obtain l1 s1 where
    eq: "snd (snd (loop_body cfg e l s)) = snd (commit_chunk cfg e (implied_mult cfg l) l1 s1)"
    and len: "commitLength l1 = chunk_length cfg l"
    and tr: "trace s1 = trace s @ [DmaChannelGetBuffer, ThreadSleep 3]"
    and cm: "CurrentMultVal s1 = CurrentMultVal s"
    using loop_body_commit[OF assms] by blast
  show ?thesis
    unfolding eq commit_chunk_trace retunes_cong[OF cm] len tr by simp
qed

lemma loop_body_regs:
  assumes "get_status e = CY_U3P_SUCCESS"
  shows "regs (snd (snd (loop_body cfg e l s))) =
     (if retunes cfg e (implied_mult cfg l) s
      then regs (CyFxUvcAppSetMultByEpm (CY_FX_EP_ISO_VIDEO cfg AND 0x0F) s) else regs s)"
   and "CurrentMultVal (snd (snd (loop_body cfg e l s))) =
     (if retunes cfg e (implied_mult cfg l) s
      then CurrentMultVal (CyFxUvcAppSetMultByEpm (CY_FX_EP_ISO_VIDEO cfg AND 0x0F) s)
      else CurrentMultVal s)"
proof -
  obtain l1 s1 where
    eq: "snd (snd (loop_body cfg e l s)) = snd (commit_chunk cfg e (implied_mult cfg l) l1 s1)"
    and cm: "CurrentMultVal s1 = CurrentMultVal s" and rg: "regs s1 = regs s"
    using loop_body_commit[OF assms] by blast
  show "regs (snd (snd (loop_body cfg e l s))) =
     (if retunes cfg e (implied_mult cfg l) s
      then regs (CyFxUvcAppSetMultByEpm (CY_FX_EP_ISO_VIDEO cfg AND 0x0F) s) else regs s)"
    unfolding eq commit_chunk_regs retunes_cong[OF cm] using rg SetMult_regs_cong(1)[OF rg]
    by simp
  show "CurrentMultVal (snd (snd (loop_body cfg e l s))) =
     (if retunes cfg e (implied_mult cfg l) s
      then CurrentMultVal (CyFxUvcAppSetMultByEpm (CY_FX_EP_ISO_VIDEO cfg AND 0x0F) s)
      else CurrentMultVal s)"
    unfolding eq commit_chunk_regs retunes_cong[OF cm] using cm SetMult_regs_cong(2)[OF rg]
    by simp
qed

lemma busy_state_simps:
  "regs busy_state (epm_addr 3) = 0x404E2000"
  "regs busy_state (cfg_addr 3) = 0x3000"
  "CurrentMultVal busy_state = 3"
  "trace busy_state = []"
  by (simp_all add: busy_state_def epm_addr_def cfg_addr_def
      FX3_USB2_INEP_CFG_ADDR_BASE_def FX3_USB2_INEP_EPM_ADDR_BASE_def)

lemma scenario_first_pass:
  "\<not> is_last_packet scenario_cfg start_locals"
  "chunk_length scenario_cfg start_locals = 1012"
  "implied_mult scenario_cfg start_locals = 1"
  by (simp_all add: is_last_packet_def chunk_length_def implied_mult_def scenario_cfg_def
      start_locals_def payload_size_def)

lemma ok_env_simps:
  "get_status (ok_env sp) = CY_U3P_SUCCESS" "commit_status (ok_env sp) = CY_U3P_SUCCESS"
  "usb_speed (ok_env sp) = sp" "usb_event (ok_env sp) = None" "get_buffer (ok_env sp) = (\<lambda>i. 0xFF)"
  by (simp_all add: ok_env_def)

lemma busy_SetMult:
  "regs (CyFxUvcAppSetMultByEpm 3 busy_state) (cfg_addr 3) = 0x3000"
  "CurrentMultVal (CyFxUvcAppSetMultByEpm 3 busy_state) = 3"
  by (simp_all add: CyFxUvcAppSetMultByEpm_def busy_state_def Let_def log_def
      epm_addr_def cfg_addr_def FX3_USB2_INEP_CFG_ADDR_BASE_def FX3_USB2_INEP_EPM_ADDR_BASE_def
      FX3_USB2_INEP_EPM_READY_MASK_def FX3_USB2_INEP_EPM_DSIZE_MASK_def
      FX3_USB2_INEP_EPM_DSIZE_POS_def FX3_USB2_INEP_MULT_MASK_def FX3_USB2_INEP_MULT_POS_def
      CY_U3P_MIN_def CY_U3P_MAX_def)

lemma mult_field_3000: "mult_field 0x3000 = 3"
  by (simp add: mult_field_def FX3_USB2_INEP_MULT_MASK_def FX3_USB2_INEP_MULT_POS_def)

lemma busy_pass_events:
  "new_events busy_state
     (pass_state scenario_cfg (ok_env CY_U3P_HIGH_SPEED) start_locals busy_state)
   = [DmaChannelGetBuffer, ThreadSleep 3, UsbSetEpNak 0x83 True, BusyWait 10,
      DmaChannelCommitBuffer 1012, BusyWait 20, RegWrite (cfg_addr 3) 0x3000,
      UsbSetEpNak 0x83 False]"
  by (simp add: pass_state_def new_events_def loop_body_trace loop_body_regs ok_env_simps scenario_first_pass
      retunes_def busy_state_simps nak_sequence_def scenario_ep busy_SetMult)

subsection \<open>Retuning the multiplier around a commit\<close>

text \<open>
  C2, as the specification states it, fails.  At high speed, with \<^verbatim>\<open>CurrentMultVal\<close> = 3
  and a first packet whose implied multiplier is 1, the producer commits the buffer
  before the register is written (no register write comes before the commit), and the
  value then programmed is 3, computed from the 2500 bytes in the endpoint memory, not
  the multiplier the commit implies.
\<close>

theorem C2_retune_counterexample:
  "usb_speed (ok_env CY_U3P_HIGH_SPEED) = CY_U3P_HIGH_SPEED
   \<and> unat (CurrentMultVal busy_state) \<noteq> implied_mult scenario_cfg start_locals
   \<and> \<not> written_before_commit (new_events busy_state
        (pass_state scenario_cfg (ok_env CY_U3P_HIGH_SPEED) start_locals busy_state))
   \<and> unat (mult_field (regs
        (pass_state scenario_cfg (ok_env CY_U3P_HIGH_SPEED) start_locals busy_state)
        (cfg_addr 3))) \<noteq> implied_mult scenario_cfg start_locals"
  by (simp add: busy_pass_events written_before_commit_def ok_env_simps busy_state_simps
      scenario_first_pass)
    (simp add: pass_state_def loop_body_regs ok_env_simps busy_state_simps
      scenario_first_pass retunes_def scenario_ep busy_SetMult mult_field_3000)

text \<open>
  C2, amended.  At high speed, when \<^verbatim>\<open>CurrentMultVal\<close> differs from the multiplier the
  packet about to be committed implies, the producer sets the endpoint to NAK, waits
  10 us, commits the buffer, waits 20 us, calls CyFxUvcAppSetMultByEpm, which writes
  into the MULT field the multiplier computed from the occupancy of the endpoint memory,
  and clears the NAK: the register is written after the commit, inside the NAK window.
  When \<^verbatim>\<open>CurrentMultVal\<close> equals the implied multiplier, or the speed is not high
  speed, the producer only commits, and neither the register nor \<^verbatim>\<open>CurrentMultVal\<close>
  changes.
\<close>

theorem C2_retune_sequence:
  assumes "get_status e = CY_U3P_SUCCESS"
    and "s' = pass_state cfg e l s"
    and "ep = CY_FX_EP_ISO_VIDEO cfg AND 0x0F"
  shows "(usb_speed e = CY_U3P_HIGH_SPEED \<and> unat (CurrentMultVal s) \<noteq> implied_mult cfg l \<longrightarrow>
            new_events s s' =
              [DmaChannelGetBuffer, ThreadSleep 3,
               UsbSetEpNak (CY_FX_EP_ISO_VIDEO cfg) True, BusyWait 10,
               DmaChannelCommitBuffer (chunk_length cfg l), BusyWait 20,
               RegWrite (cfg_addr ep) (regs s' (cfg_addr ep)),
               UsbSetEpNak (CY_FX_EP_ISO_VIDEO cfg) False]
          \<and> unat (mult_field (regs s' (cfg_addr ep))) =
              (if epm_ready (regs s (epm_addr ep))
               then max 1 (min 3 (bytes_ready (regs s (epm_addr ep)) div 1024 + 1)) else 1)
          \<and> unat (CurrentMultVal s') =
              (if epm_ready (regs s (epm_addr ep))
               then bytes_ready (regs s (epm_addr ep)) div 1024 + 1 else 0))
       \<and> (\<not> (usb_speed e = CY_U3P_HIGH_SPEED \<and> unat (CurrentMultVal s) \<noteq> implied_mult cfg l) \<longrightarrow>
            new_events s s' =
              [DmaChannelGetBuffer, ThreadSleep 3, DmaChannelCommitBuffer (chunk_length cfg l)]
          \<and> regs s' = regs s \<and> CurrentMultVal s' = CurrentMultVal s)"
  unfolding assms(2) assms(3) pass_state_def
  by (simp add: new_events_def loop_body_trace[OF assms(1)] loop_body_regs[OF assms(1)]
      retunes_def nak_sequence_def SetMult_field SetMult_cache)

theorem C2_retune_sequence_witness:
  "new_events busy_state
     (pass_state scenario_cfg (ok_env CY_U3P_HIGH_SPEED) start_locals busy_state)
     = [DmaChannelGetBuffer, ThreadSleep 3, UsbSetEpNak 0x83 True, BusyWait 10,
        DmaChannelCommitBuffer 1012, BusyWait 20,
        RegWrite (cfg_addr 3) (regs (pass_state scenario_cfg (ok_env CY_U3P_HIGH_SPEED)
           start_locals busy_state) (cfg_addr 3)),
        UsbSetEpNak 0x83 False]
   \<and> unat (mult_field (regs (pass_state scenario_cfg (ok_env CY_U3P_HIGH_SPEED)
           start_locals busy_state) (cfg_addr 3))) = 3
   \<and> new_events busy_state
       (pass_state scenario_cfg (ok_env CY_U3P_SUPER_SPEED) start_locals busy_state)
     = [DmaChannelGetBuffer, ThreadSleep 3, DmaChannelCommitBuffer 1012]"
  using C2_retune_sequence[where e = "ok_env CY_U3P_HIGH_SPEED" and cfg = scenario_cfg
      and l = start_locals and s = busy_state, OF _ refl refl]
    C2_retune_sequence[where e = "ok_env CY_U3P_SUPER_SPEED" and cfg = scenario_cfg
      and l = start_locals and s = busy_state, OF _ refl refl]
  by (simp add: ok_env_simps busy_state_simps scenario_first_pass scenario_ep epm_samples)

text \<open>
  C7: CyFxUvcAppSetMultByEpm stores the computed multiplier in \<^verbatim>\<open>CurrentMultVal\<close>
  before clamping it (0 when the endpoint memory is not ready) and writes the clamped
  value to the hardware; the producer decides whether to retune by comparing the
  multiplier a commit implies with that cached, unclamped value.
\<close>

theorem C7_raw_value_cached:
  "unat (CurrentMultVal (CyFxUvcAppSetMultByEpm ep s)) =
     (if epm_ready (regs s (epm_addr ep))
      then bytes_ready (regs s (epm_addr ep)) div 1024 + 1 else 0)
   \<and> unat (mult_field (regs (CyFxUvcAppSetMultByEpm ep s) (cfg_addr ep))) =
       max 1 (min 3 (unat (CurrentMultVal (CyFxUvcAppSetMultByEpm ep s))))
   \<and> (get_status e = CY_U3P_SUCCESS \<and> usb_speed e = CY_U3P_HIGH_SPEED \<longrightarrow>
        (UsbSetEpNak (CY_FX_EP_ISO_VIDEO cfg) True \<in> set (new_events s' (pass_state cfg e l s')))
          = (unat (CurrentMultVal s') \<noteq> implied_mult cfg l))"
  by (simp add: SetMult_cache SetMult_field)
    (simp add: pass_state_def new_events_def loop_body_trace retunes_def nak_sequence_def)

theorem C7_raw_value_cached_witness:
  "unat (CurrentMultVal (CyFxUvcAppSetMultByEpm 3 (with_epm 0))) = 0
   \<and> unat (mult_field (regs (CyFxUvcAppSetMultByEpm 3 (with_epm 0)) (cfg_addr 3))) = 1
   \<and> implied_mult scenario_cfg start_locals = 1
   \<and> UsbSetEpNak 0x83 True \<in> set (new_events (CyFxUvcAppSetMultByEpm 3 (with_epm 0))
        (pass_state scenario_cfg (ok_env CY_U3P_HIGH_SPEED) start_locals
           (CyFxUvcAppSetMultByEpm 3 (with_epm 0))))"
  using C7_raw_value_cached[of 3 "with_epm 0" "ok_env CY_U3P_HIGH_SPEED" scenario_cfg
      "CyFxUvcAppSetMultByEpm 3 (with_epm 0)" start_locals]
  by (simp add: with_epm_regs epm_samples ok_env_simps scenario_first_pass scenario_ep)

subsection \<open>The last packet of a frame\<close>

lemma no_wrap_last:
  assumes "unat (off::u32) + unat (p::u32) < 2 ^ 32"
  shows "\<not> off + p < off"
proof -
  have "unat (off + p) = unat off + unat p"
    using assms unat_add_lem[of off p] by simp
  then show ?thesis by (simp add: word_less_nat_alt)
qed

lemma stamped_eof_bit:
  "stamped cfg hdr b True (Suc 0) AND CY_FX_UVC_HEADER_EOF cfg = CY_FX_UVC_HEADER_EOF cfg"
  by (simp add: stamped_def bit_eq_iff bit_simps)

lemma stamped_rest:
  "1 < unat (CY_FX_UVC_MAX_HEADER cfg) \<Longrightarrow> unat (CY_FX_UVC_MAX_HEADER cfg) \<le> i \<Longrightarrow>
   stamped cfg hdr b eof i = b i"
  by (simp add: stamped_def)

lemma stamped_head:
  "i < unat (CY_FX_UVC_MAX_HEADER cfg) \<Longrightarrow> i \<noteq> 1 \<Longrightarrow> stamped cfg hdr b eof i = hdr i"
  by (simp add: stamped_def)

lemma empty_frame_cfg_simps:
  "glVidFrameLen empty_frame_cfg 0 = 0" "CY_FX_UVC_MAX_HEADER empty_frame_cfg = 12"
  "payload_size empty_frame_cfg = 1000" "CY_FX_UVC_MAX_VID_FRAMES empty_frame_cfg = 3"
  "CY_FX_UVC_HEADER_EOF empty_frame_cfg = 2"
  by (simp_all add: empty_frame_cfg_def scenario_cfg_def payload_size_def)

lemma start_locals_simps:
  "frameIndex start_locals = 0" "frameOffset start_locals = 0" "frameStart start_locals = 0"
  by (simp_all add: start_locals_def)

text \<open>
  C10: when nothing of the frame remains at a packet boundary (as for a frame of length
  zero), a pass whose SDK calls succeed takes the last-packet branch: it copies no payload
  byte into the buffer, commits a packet of exactly the header length with the EOF bit
  set in its header, and moves the counters to the next frame.
\<close>

theorem C10_empty_remainder:
  assumes "get_status e = CY_U3P_SUCCESS" and "commit_status e = CY_U3P_SUCCESS"
    and "glVidFrameLen cfg (unat (frameIndex l)) = frameOffset l"
    and "unat (frameOffset l) + unat (payload_size cfg) < 2 ^ 32"
    and "1 < unat (CY_FX_UVC_MAX_HEADER cfg)" and "unat (CY_FX_UVC_MAX_HEADER cfg) < 2 ^ 16"
  shows "\<not> pass_break cfg e l s
    \<and> (\<exists>b n. dma_out (pass_state cfg e l s) = dma_out s @ [(b, n)]
           \<and> unat n = unat (CY_FX_UVC_MAX_HEADER cfg)
           \<and> b 1 AND CY_FX_UVC_HEADER_EOF cfg = CY_FX_UVC_HEADER_EOF cfg
           \<and> (\<forall>i. unat (CY_FX_UVC_MAX_HEADER cfg) \<le> i \<longrightarrow> b i = get_buffer e i)
           \<and> (\<forall>i. i < unat (CY_FX_UVC_MAX_HEADER cfg) \<and> i \<noteq> 1 \<longrightarrow> b i = glUVCHeader s i))
    \<and> frameOffset (pass_locals cfg e l s) = 0
    \<and> frameIndex (pass_locals cfg e l s) =
        (if frameIndex l + 1 \<ge> CY_FX_UVC_MAX_VID_FRAMES cfg then 0 else frameIndex l + 1)
    \<and> frameStart (pass_locals cfg e l s) =
        (if frameIndex l + 1 \<ge> CY_FX_UVC_MAX_VID_FRAMES cfg then 0
         else frameStart l + glVidFrameLen cfg (unat (frameIndex l)))"
proof -
  have last: "is_last_packet cfg l"
    using no_wrap_last[OF assms(4)] by (simp add: is_last_packet_def assms(3))
  have len: "unat (chunk_length cfg l) = unat (CY_FX_UVC_MAX_HEADER cfg)"
    using last assms(6) by (simp add: chunk_length_def assms(3) unsigned_ucast_eq take_bit_eq_mod)
  have pay: "payload cfg e l i = get_buffer e i" for i
    using last by (auto simp: payload_def assms(3) CyU3PMemCopy_def)
  have cur: "next_cursor cfg l (pass_locals cfg e l s)"
    unfolding pass_locals_def by (rule loop_body_cursor[OF assms(1,2)])
  show ?thesis
    using last len cur assms(1,2,5)
    by (simp add: pass_break_def pass_state_def loop_body_brk loop_body_dma next_cursor_def
        stamped_eof_bit stamped_rest stamped_head pay)
qed

theorem C10_empty_remainder_witness:
  "\<not> pass_break empty_frame_cfg (ok_env CY_U3P_HIGH_SPEED) start_locals busy_state
   \<and> (\<exists>b n. dma_out (pass_state empty_frame_cfg (ok_env CY_U3P_HIGH_SPEED) start_locals busy_state)
             = dma_out busy_state @ [(b, n)] \<and> unat n = 12 \<and> b 1 AND 2 = 2
           \<and> (\<forall>i. 12 \<le> i \<longrightarrow> b i = 0xFF))
   \<and> frameIndex (pass_locals empty_frame_cfg (ok_env CY_U3P_HIGH_SPEED) start_locals busy_state) = 1"
  using C10_empty_remainder[of "ok_env CY_U3P_HIGH_SPEED" empty_frame_cfg start_locals busy_state]
  by (simp add: ok_env_simps empty_frame_cfg_simps start_locals_simps word_le_nat_alt) blast

subsection \<open>Leaving the streaming loop\<close>

lemma handler_some_false: "CyFxAppErrorHandler st s = Some y \<Longrightarrow> False"
  by (rule CyFxAppErrorHandler.raw_induct[where P = "\<lambda>_ _ _. False"]) auto

lemma handler_never_returns: "CyFxAppErrorHandler st s = None"
  using handler_some_false[of st s] by (cases "CyFxAppErrorHandler st s") auto

lemma video_streamer_append:
  "video_streamer cfg (es @ es') l s =
     (case video_streamer cfg es l s of
        Running l1 s1 \<Rightarrow> video_streamer cfg es' l1 s1
      | Exited l1 s1 \<Rightarrow> Exited l1 s1)"
proof (induction es arbitrary: l s)
  case Nil
  show ?case by (cases es') auto
next
  case (Cons e es)
  show ?case by (simp add: Cons.IH Let_def split: prod.splits)
qed

lemma Running_active: "video_streamer cfg es l s = Running l' s' \<Longrightarrow> glIsApplnActive s'"
proof (induction es arbitrary: l s)
  case Nil
  then show ?case by (auto split: if_splits)
next
  case (Cons e es)
  then show ?case by (auto simp: Let_def split: if_splits prod.splits)
qed

lemma Stop_active: "\<not> glIsApplnActive (CyFxUVCApplnStop cfg s)"
  by (simp add: CyFxUVCApplnStop_def Let_def log_def)

lemma video_streamer_fail:
  assumes "glIsApplnActive s"
    and "get_status e \<noteq> CY_U3P_SUCCESS \<or> commit_status e \<noteq> CY_U3P_SUCCESS"
  shows "video_streamer cfg (e # post) l s =
           Exited (pass_locals cfg e l s) (usb_event_handled cfg e (pass_state cfg e l s))"
  using assms loop_body_brk[of cfg e l s]
  by (auto simp: pass_locals_def pass_state_def Let_def split: prod.splits)

lemma round_start:
  "thread_round scenario_cfg [] start_locals busy_state = Streaming start_locals busy_state"
proof -
  have "(glUVCHeader busy_state)(1 := 0x8C) = glUVCHeader busy_state"
    by (auto simp: busy_state_def)
  then show ?thesis
    by (simp add: thread_round_def Let_def start_locals_def scenario_cfg_def)
      (simp add: busy_state_def)
qed

text \<open>
  The thread is inside the streaming loop and a pass fails, in
  \<^verbatim>\<open>CyU3PDmaChannelGetBuffer\<close> or in \<^verbatim>\<open>CyU3PDmaChannelCommitBuffer\<close>.  The loop is left
  at once and nothing is committed by that pass or after it, whatever the environment
  would supply next.  What follows depends on \<^verbatim>\<open>glIsApplnActive\<close> alone, as the USB event
  callback has left it when line 781 reads it: set, the thread prints the error and
  enters \<^verbatim>\<open>CyFxAppErrorHandler\<close>, which never returns; clear, the thread sleeps and goes
  round again.
\<close>

lemma round_after_failure:
  assumes "thread_round cfg pre l0 s0 = Streaming l s"
    and "get_status e \<noteq> CY_U3P_SUCCESS \<or> commit_status e \<noteq> CY_U3P_SUCCESS"
  shows "thread_round cfg (pre @ e # post) l0 s0 =
           (if glIsApplnActive (usb_event_handled cfg e (pass_state cfg e l s))
            then Halted (pass_locals cfg e l s)
                   (log (streamer_error (status (pass_locals cfg e l s)))
                      (usb_event_handled cfg e (pass_state cfg e l s)))
            else Idle (pass_locals cfg e l s)
                   (CyU3PThreadSleep 100 (usb_event_handled cfg e (pass_state cfg e l s))))"
    and "status (pass_locals cfg e l s) \<noteq> CY_U3P_SUCCESS"
    and "dma_out (usb_event_handled cfg e (pass_state cfg e l s)) = dma_out s"
    and "glIsApplnActive (pass_state cfg e l s)"
proof -
  let ?l0 = "l0\<lparr>frameStart := 0, frameIndex := 0, frameOffset := 0\<rparr>"
  let ?s0 = "s0\<lparr>glUVCHeader := (glUVCHeader s0)(1 := CY_FX_UVC_HEADER_DEFAULT_BFH cfg)\<rparr>"
  have run: "video_streamer cfg pre ?l0 ?s0 = Running l s"
    using assms(1)
    by (auto simp: thread_round_def Let_def handler_never_returns split: run.splits if_splits)
  have act: "glIsApplnActive s" by (rule Running_active[OF run])
  show st: "status (pass_locals cfg e l s) \<noteq> CY_U3P_SUCCESS"
    using assms(2) by (auto simp: pass_locals_def loop_body_status)
  show "glIsApplnActive (pass_state cfg e l s)"
    using act by (simp add: pass_state_def loop_body_active)
  have "dma_out (pass_state cfg e l s) = dma_out s"
    using assms(2) by (auto simp: pass_state_def loop_body_dma)
  then show "dma_out (usb_event_handled cfg e (pass_state cfg e l s)) = dma_out s"
    by (simp add: usb_event_handled_def CyFxUVCApplnUSBEventCB_def CyFxUVCApplnStop_def
      CyFxUVCApplnStart_def Let_def log_def
      split: option.splits prod.splits CyU3PUsbEventType_t.splits)
  have "video_streamer cfg (pre @ e # post) ?l0 ?s0 =
          Exited (pass_locals cfg e l s) (usb_event_handled cfg e (pass_state cfg e l s))"
    unfolding video_streamer_append run
    by (simp only: run.case video_streamer_fail[OF act assms(2)])
  then show "thread_round cfg (pre @ e # post) l0 s0 =
           (if glIsApplnActive (usb_event_handled cfg e (pass_state cfg e l s))
            then Halted (pass_locals cfg e l s)
                   (log (streamer_error (status (pass_locals cfg e l s)))
                      (usb_event_handled cfg e (pass_state cfg e l s)))
            else Idle (pass_locals cfg e l s)
                   (CyU3PThreadSleep 100 (usb_event_handled cfg e (pass_state cfg e l s))))"
    unfolding thread_round_def Let_def
    using st by (simp add: handler_never_returns)
qed

text \<open>
  What the USB event callback does to the flag of an active stream.  No event leaves it
  set.  A reset, a disconnect, a \<^verbatim>\<open>SETCONF\<close>, and a \<^verbatim>\<open>SETINTF\<close> that does not select a
  non-zero alternate setting of the streaming interface clear it.  A \<^verbatim>\<open>SETINTF\<close> that
  selects a non-zero alternate setting of the streaming interface runs
  \<^verbatim>\<open>CyFxUVCApplnStop\<close> and then \<^verbatim>\<open>CyFxUVCApplnStart\<close>, which sets the flag again when its
  three SDK calls succeed.
\<close>

lemma no_event_active:
  assumes "usb_event e = None"
  shows "usb_event_handled cfg e s = s"
  using assms by (simp add: usb_event_handled_def)

lemma stop_event_inactive:
  assumes "glIsApplnActive s"
    and "usb_event e = Some (evtype, evdata)"
    and "evtype = CY_U3P_USB_EVENT_RESET \<or> evtype = CY_U3P_USB_EVENT_DISCONNECT
         \<or> evtype = CY_U3P_USB_EVENT_SETCONF
         \<or> (evtype = CY_U3P_USB_EVENT_SETINTF
             \<and> (CY_U3P_GET_MSB evdata \<noteq> CY_FX_UVC_INTERFACE_VS cfg \<or> CY_U3P_GET_LSB evdata = 0))"
  shows "\<not> glIsApplnActive (usb_event_handled cfg e s)"
  using assms
  by (auto simp: usb_event_handled_def CyFxUVCApplnUSBEventCB_def Let_def Stop_active
      split: if_splits)

lemma Start_active:
  assumes "ep_config_status e = CY_U3P_SUCCESS" and "channel_create_status e = CY_U3P_SUCCESS"
    and "set_xfer_status e = CY_U3P_SUCCESS"
  shows "glIsApplnActive (snd (CyFxUVCApplnStart cfg e s))"
  using assms by (simp add: CyFxUVCApplnStart_def Let_def log_def)

lemma restart_event_active:
  assumes "usb_event e = Some (CY_U3P_USB_EVENT_SETINTF, evdata)"
    and "CY_U3P_GET_MSB evdata = CY_FX_UVC_INTERFACE_VS cfg" and "CY_U3P_GET_LSB evdata \<noteq> 0"
    and "ep_config_status e = CY_U3P_SUCCESS" and "channel_create_status e = CY_U3P_SUCCESS"
    and "set_xfer_status e = CY_U3P_SUCCESS"
  shows "glIsApplnActive (usb_event_handled cfg e s)"
  using assms(1-3) Start_active[OF assms(4-6)]
  by (simp add: usb_event_handled_def CyFxUVCApplnUSBEventCB_def Let_def)

lemma fail_pass:
  "pass_locals scenario_cfg (fail_env ev) start_locals busy_state
     = start_locals\<lparr>status := 0x45\<rparr>"
  "pass_state scenario_cfg (fail_env ev) start_locals busy_state
     = log DmaChannelGetBuffer busy_state"
  by (simp_all add: pass_locals_def pass_state_def loop_body_def CyU3PDmaChannelGetBuffer_def
      fail_env_def CY_U3P_SUCCESS_def start_locals_def)

lemma fail_env_simps:
  "get_status (fail_env ev) \<noteq> CY_U3P_SUCCESS" "usb_event (fail_env ev) = ev"
  "usb_speed (fail_env ev) = CY_U3P_HIGH_SPEED"
  "ep_config_status (fail_env ev) = CY_U3P_SUCCESS"
  "channel_create_status (fail_env ev) = CY_U3P_SUCCESS"
  "set_xfer_status (fail_env ev) = CY_U3P_SUCCESS"
  by (simp_all add: fail_env_def CY_U3P_SUCCESS_def)

lemma setintf_data:
  "CY_U3P_GET_MSB 0x0101 = 1" "CY_U3P_GET_LSB 0x0101 = 1"
  "CY_U3P_GET_MSB 0x0100 = 1" "CY_U3P_GET_LSB 0x0100 = 0"
  by (simp_all add: CY_U3P_GET_MSB_def CY_U3P_GET_LSB_def)

lemma stopped_state:
  "usb_event_handled scenario_cfg (fail_env (Some (CY_U3P_USB_EVENT_SETINTF, 0x0100)))
     (log DmaChannelGetBuffer busy_state)
   = busy_state\<lparr>glIsApplnActive := False,
       uvcVideoEpCfg := streaming_ep_cfg\<lparr>enable := False\<rparr>,
       trace := [DmaChannelGetBuffer, DmaChannelDestroy, UsbFlushEp 0x83,
                 SetEpConfig 0x83 (streaming_ep_cfg\<lparr>enable := False\<rparr>),
                 DebugPrint 3 (''App Stopped'' @ crlf) []]\<rparr>"
  by (simp add: usb_event_handled_def fail_env_simps CyFxUVCApplnUSBEventCB_def setintf_data
      CyFxUVCApplnStop_def Let_def log_def)
    (simp add: busy_state_def scenario_cfg_def)

lemma restarted_state:
  "usb_event_handled scenario_cfg (fail_env (Some (CY_U3P_USB_EVENT_SETINTF, 0x0101)))
     (log DmaChannelGetBuffer busy_state)
   = busy_state\<lparr>trace := [DmaChannelGetBuffer, DmaChannelDestroy, UsbFlushEp 0x83,
                 SetEpConfig 0x83 (streaming_ep_cfg\<lparr>enable := False\<rparr>),
                 DebugPrint 3 (''App Stopped'' @ crlf) [],
                 SetEpConfig 0x83 streaming_ep_cfg, DmaChannelCreate, UsbFlushEp 0x83,
                 DmaChannelSetXfer, DebugPrint 3 (''App Started'' @ crlf) []]\<rparr>"
  by (simp add: usb_event_handled_def fail_env_simps CyFxUVCApplnUSBEventCB_def setintf_data
      CyFxUVCApplnStop_def CyFxUVCApplnStart_def Let_def log_def)
    (simp add: busy_state_def scenario_cfg_def streaming_ep_cfg_def)

lemma busy_state_flags:
  "glIsApplnActive (busy_state\<lparr>trace := t\<rparr>)"
  "\<not> glIsApplnActive (busy_state\<lparr>glIsApplnActive := False, uvcVideoEpCfg := c, trace := t\<rparr>)"
  "log ev (busy_state\<lparr>trace := t\<rparr>) = busy_state\<lparr>trace := t @ [ev]\<rparr>"
  "CyU3PThreadSleep n (busy_state\<lparr>glIsApplnActive := False, uvcVideoEpCfg := c, trace := t\<rparr>)
     = busy_state\<lparr>glIsApplnActive := False, uvcVideoEpCfg := c, trace := t @ [ThreadSleep n]\<rparr>"
  by (simp_all add: busy_state_def log_def CyU3PThreadSleep_def)

text \<open>
  C6: a stream is active and \<^verbatim>\<open>CyU3PDmaChannelGetBuffer\<close> fails with the code
  \<open>0x45\<close>, in three environments.  (1) The host has selected alternate setting 1 of the
  streaming interface again: the USB event callback has run \<^verbatim>\<open>CyFxUVCApplnStop\<close>, which
  destroyed the channel, and then \<^verbatim>\<open>CyFxUVCApplnStart\<close>, which set \<^verbatim>\<open>glIsApplnActive\<close>
  again; the thread leaves the loop, finds the flag set at line 781, prints the error
  and enters \<^verbatim>\<open>CyFxAppErrorHandler\<close>, which never returns, although the failure
  came from the stop.  (2) The host has selected alternate setting 0: only
  \<^verbatim>\<open>CyFxUVCApplnStop\<close> has run, and the thread sleeps and goes idle without calling the
  error handler.  (3) No USB event: the stream is still active, and the thread enters
  the error handler.  In all three the buffer that a later pass could fill is never
  asked for.
\<close>

theorem C6_restart_enters_error_handler:
  "thread_round scenario_cfg
     ([] @ fail_env (Some (CY_U3P_USB_EVENT_SETINTF, 0x0101)) # [ok_env CY_U3P_HIGH_SPEED])
     start_locals busy_state
     = Halted (start_locals\<lparr>status := 0x45\<rparr>)
         (busy_state\<lparr>trace :=
            [DmaChannelGetBuffer, DmaChannelDestroy, UsbFlushEp 0x83,
             SetEpConfig 0x83 (streaming_ep_cfg\<lparr>enable := False\<rparr>),
             DebugPrint 3 (''App Stopped'' @ crlf) [],
             SetEpConfig 0x83 streaming_ep_cfg, DmaChannelCreate, UsbFlushEp 0x83,
             DmaChannelSetXfer, DebugPrint 3 (''App Started'' @ crlf) [],
             DebugPrint 4 (''UVC video streamer error. Code %d.'' @ crlf) [0x45]]\<rparr>)
   \<and> CyFxAppErrorHandler 0x45
         (busy_state\<lparr>trace :=
            [DmaChannelGetBuffer, DmaChannelDestroy, UsbFlushEp 0x83,
             SetEpConfig 0x83 (streaming_ep_cfg\<lparr>enable := False\<rparr>),
             DebugPrint 3 (''App Stopped'' @ crlf) [],
             SetEpConfig 0x83 streaming_ep_cfg, DmaChannelCreate, UsbFlushEp 0x83,
             DmaChannelSetXfer, DebugPrint 3 (''App Started'' @ crlf) [],
             DebugPrint 4 (''UVC video streamer error. Code %d.'' @ crlf) [0x45]]\<rparr>) = None
   \<and> thread_round scenario_cfg
     ([] @ fail_env (Some (CY_U3P_USB_EVENT_SETINTF, 0x0100)) # [ok_env CY_U3P_HIGH_SPEED])
     start_locals busy_state
     = Idle (start_locals\<lparr>status := 0x45\<rparr>)
         (busy_state\<lparr>glIsApplnActive := False,
            uvcVideoEpCfg := streaming_ep_cfg\<lparr>enable := False\<rparr>,
            trace :=
              [DmaChannelGetBuffer, DmaChannelDestroy, UsbFlushEp 0x83,
               SetEpConfig 0x83 (streaming_ep_cfg\<lparr>enable := False\<rparr>),
               DebugPrint 3 (''App Stopped'' @ crlf) [], ThreadSleep 100]\<rparr>)
   \<and> thread_round scenario_cfg ([] @ fail_env None # [ok_env CY_U3P_HIGH_SPEED])
     start_locals busy_state
     = Halted (start_locals\<lparr>status := 0x45\<rparr>)
         (busy_state\<lparr>trace :=
            [DmaChannelGetBuffer,
             DebugPrint 4 (''UVC video streamer error. Code %d.'' @ crlf) [0x45]]\<rparr>)"
proof -
  have f: "get_status (fail_env ev) \<noteq> CY_U3P_SUCCESS \<or> commit_status (fail_env ev) \<noteq> CY_U3P_SUCCESS"
    for ev by (simp add: fail_env_simps)
  have n: "usb_event_handled scenario_cfg (fail_env None) (log DmaChannelGetBuffer busy_state)
             = busy_state\<lparr>trace := [DmaChannelGetBuffer]\<rparr>"
    by (simp add: no_event_active fail_env_simps) (simp add: log_def busy_state_def)
  show ?thesis
    using round_after_failure(1)[OF round_start f, of "Some (CY_U3P_USB_EVENT_SETINTF, 0x0101)"
        "[ok_env CY_U3P_HIGH_SPEED]"]
      round_after_failure(1)[OF round_start f, of "Some (CY_U3P_USB_EVENT_SETINTF, 0x0100)"
        "[ok_env CY_U3P_HIGH_SPEED]"]
      round_after_failure(1)[OF round_start f, of None "[ok_env CY_U3P_HIGH_SPEED]"]
    by (simp add: fail_pass restarted_state stopped_state n busy_state_flags streamer_error_def
        handler_never_returns)
qed

subsection \<open>The header and the frame id\<close>

lemma Stop_keeps:
  "dma_out (CyFxUVCApplnStop cfg s) = dma_out s"
  "glUVCHeader (CyFxUVCApplnStop cfg s) = glUVCHeader s"
  by (simp_all add: CyFxUVCApplnStop_def Let_def log_def)

lemma Start_keeps:
  "dma_out (snd (CyFxUVCApplnStart cfg e s)) = dma_out s"
  "glUVCHeader (snd (CyFxUVCApplnStart cfg e s)) = glUVCHeader s"
  by (simp_all add: CyFxUVCApplnStart_def Let_def log_def)

lemma usb_event_keeps:
  "dma_out (usb_event_handled cfg e s) = dma_out s"
  "glUVCHeader (usb_event_handled cfg e s) = glUVCHeader s"
  by (simp_all add: usb_event_handled_def CyFxUVCApplnUSBEventCB_def Let_def Stop_keeps
      Start_keeps split: option.splits prod.splits CyU3PUsbEventType_t.splits)

lemma xor_keeps_eof:
  assumes "(f::u8) AND m = 0"
  shows "(x XOR f) AND m = x AND m"
proof -
  have "(x XOR f) AND m = (x AND m) XOR (f AND m)"
    by (simp add: bit_eq_iff bit_simps) blast
  then show ?thesis using assms by simp
qed

lemma or_sets_eof: "((x::u8) OR m) AND m = m"
  by (simp add: bit_eq_iff bit_simps)

lemma pass_ok:
  assumes "calls_succeed e" and "header_bits_ok cfg"
    and "glUVCHeader s 1 AND CY_FX_UVC_HEADER_EOF cfg = 0"
  shows "\<exists>c. dma_out (pass_state cfg e l s) = dma_out s @ [c]
           \<and> snd c = chunk_length cfg l
           \<and> fst c = stamped cfg (glUVCHeader s) (payload cfg e l) (is_last_packet cfg l)
           \<and> chunk_eof cfg c = is_last_packet cfg l"
    and "glUVCHeader (pass_state cfg e l s) =
           (if is_last_packet cfg l
            then (glUVCHeader s)(1 := glUVCHeader s 1 XOR CY_FX_UVC_HEADER_FRAME_ID cfg)
            else glUVCHeader s)"
    and "glUVCHeader (pass_state cfg e l s) 1 AND CY_FX_UVC_HEADER_EOF cfg = 0"
    and "\<not> pass_break cfg e l s"
proof -
  have ok: "get_status e = CY_U3P_SUCCESS" "commit_status e = CY_U3P_SUCCESS"
    using assms(1) by (simp_all add: calls_succeed_def)
  have bits: "CY_FX_UVC_HEADER_EOF cfg \<noteq> 0"
    "CY_FX_UVC_HEADER_FRAME_ID cfg AND CY_FX_UVC_HEADER_EOF cfg = 0"
    "CY_FX_UVC_HEADER_FRAME cfg \<noteq> CY_FX_UVC_HEADER_EOF cfg"
    "1 < unat (CY_FX_UVC_MAX_HEADER cfg)"
    using assms(2) by (simp_all add: header_bits_ok_def)
  have eof: "chunk_eof cfg (stamped cfg (glUVCHeader s) (payload cfg e l) (is_last_packet cfg l), n)
               = is_last_packet cfg l" for n
    using bits(1,4) assms(3) by (simp add: chunk_eof_def stamped_def or_sets_eof)
  show "\<exists>c. dma_out (pass_state cfg e l s) = dma_out s @ [c]
           \<and> snd c = chunk_length cfg l
           \<and> fst c = stamped cfg (glUVCHeader s) (payload cfg e l) (is_last_packet cfg l)
           \<and> chunk_eof cfg c = is_last_packet cfg l"
    using ok bits(3) eof by (simp add: pass_state_def loop_body_dma)
  show h: "glUVCHeader (pass_state cfg e l s) =
           (if is_last_packet cfg l
            then (glUVCHeader s)(1 := glUVCHeader s 1 XOR CY_FX_UVC_HEADER_FRAME_ID cfg)
            else glUVCHeader s)"
    using ok bits(3) by (simp add: pass_state_def loop_body_header)
  show "glUVCHeader (pass_state cfg e l s) 1 AND CY_FX_UVC_HEADER_EOF cfg = 0"
    unfolding h using assms(3) xor_keeps_eof[OF bits(2)] by simp
  show "\<not> pass_break cfg e l s"
    using ok by (simp add: pass_break_def loop_body_brk)
qed

lemma video_streamer_step:
  assumes "glIsApplnActive s" and "\<not> pass_break cfg e l s"
  shows "video_streamer cfg (e # es) l s =
           video_streamer cfg es (pass_locals cfg e l s)
             (usb_event_handled cfg e (pass_state cfg e l s))"
  using assms
  by (auto simp: pass_break_def pass_locals_def pass_state_def Let_def split: prod.splits)

lemma streamer_toggle:
  assumes "header_bits_ok cfg" and "list_all calls_succeed es"
    and "glUVCHeader s 1 AND CY_FX_UVC_HEADER_EOF cfg = 0"
  shows "\<exists>new. dma_out (run_state (video_streamer cfg es l s)) = dma_out s @ new
           \<and> glUVCHeader (run_state (video_streamer cfg es l s)) 1 =
               glUVCHeader s 1 XOR
                 (if odd (length (filter (chunk_eof cfg) new))
                  then CY_FX_UVC_HEADER_FRAME_ID cfg else 0)"
  using assms(2,3)
proof (induction es arbitrary: l s)
  case Nil
  show ?case by simp
next
  case (Cons e es)
  show ?case
  proof (cases "glIsApplnActive s")
    case False
    then show ?thesis by simp
  next
    case True
    have e: "calls_succeed e" and es: "list_all calls_succeed es"
      using Cons.prems(1) by simp_all
    note p = pass_ok[OF e assms(1) Cons.prems(2), of l]
    let ?s1 = "pass_state cfg e l s"
    let ?s2 = "usb_event_handled cfg e ?s1"
    let ?l1 = "pass_locals cfg e l s"
    obtain c where c: "dma_out ?s1 = dma_out s @ [c]" "chunk_eof cfg c = is_last_packet cfg l"
      using p(1) by blast
    have d2: "dma_out ?s2 = dma_out s @ [c]" and h2: "glUVCHeader ?s2 = glUVCHeader ?s1"
      using c(1) by (simp_all add: usb_event_keeps)
    have inv2: "glUVCHeader ?s2 1 AND CY_FX_UVC_HEADER_EOF cfg = 0"
      using p(3) h2 by simp
    obtain new where new: "dma_out (run_state (video_streamer cfg es ?l1 ?s2)) = dma_out ?s2 @ new"
      "glUVCHeader (run_state (video_streamer cfg es ?l1 ?s2)) 1 =
         glUVCHeader ?s2 1 XOR (if odd (length (filter (chunk_eof cfg) new))
                  then CY_FX_UVC_HEADER_FRAME_ID cfg else 0)"
      using Cons.IH[OF es inv2, of ?l1] by blast
    have step: "video_streamer cfg (e # es) l s = video_streamer cfg es ?l1 ?s2"
      by (rule video_streamer_step[OF True p(4)])
    have "dma_out (run_state (video_streamer cfg (e # es) l s)) = dma_out s @ (c # new)"
      unfolding step new(1) d2 by simp
    moreover have "glUVCHeader (run_state (video_streamer cfg (e # es) l s)) 1 =
               glUVCHeader s 1 XOR
                 (if odd (length (filter (chunk_eof cfg) (c # new)))
                  then CY_FX_UVC_HEADER_FRAME_ID cfg else 0)"
      unfolding step new(2) h2 p(2) using c(2)
      by (simp add: xor.assoc)
    ultimately show ?thesis by blast
  qed
qed

lemma round_state:
  "dma_out (outcome_state (thread_round cfg es l0 s0)) =
     dma_out (run_state (video_streamer cfg es
        (l0\<lparr>frameStart := 0, frameIndex := 0, frameOffset := 0\<rparr>)
        (s0\<lparr>glUVCHeader := (glUVCHeader s0)(1 := CY_FX_UVC_HEADER_DEFAULT_BFH cfg)\<rparr>)))"
  "glUVCHeader (outcome_state (thread_round cfg es l0 s0)) =
     glUVCHeader (run_state (video_streamer cfg es
        (l0\<lparr>frameStart := 0, frameIndex := 0, frameOffset := 0\<rparr>)
        (s0\<lparr>glUVCHeader := (glUVCHeader s0)(1 := CY_FX_UVC_HEADER_DEFAULT_BFH cfg)\<rparr>)))"
  unfolding thread_round_def Let_def
  by (simp_all add: handler_never_returns CyU3PThreadSleep_def log_def split: run.splits)

lemma AddHeader_template_eof:
  assumes "CY_FX_UVC_HEADER_FRAME_ID cfg AND CY_FX_UVC_HEADER_EOF cfg = 0"
  shows "glUVCHeader (snd (CyFxUVCAddHeader cfg b ind s)) 1 AND CY_FX_UVC_HEADER_EOF cfg
           = glUVCHeader s 1 AND CY_FX_UVC_HEADER_EOF cfg"
  using xor_keeps_eof[OF assms] by (simp add: AddHeader_eq)

lemma scenario_bits_ok: "header_bits_ok scenario_cfg"
  by (simp add: header_bits_ok_def scenario_cfg_def)

subsection \<open>The packets of one frame\<close>

declare frame_chunks_spec.simps [simp del]

lemma payload_nat:
  assumes "sizes_ok cfg"
  shows "unat (payload_size cfg) =
           unat (CY_FX_UVC_STREAM_BUF_SIZE cfg) - unat (CY_FX_UVC_MAX_HEADER cfg)"
    and "0 < unat (payload_size cfg)"
proof -
  have le: "CY_FX_UVC_MAX_HEADER cfg \<le> CY_FX_UVC_STREAM_BUF_SIZE cfg"
    using assms by (simp add: sizes_ok_def word_le_nat_alt)
  show "unat (payload_size cfg) =
           unat (CY_FX_UVC_STREAM_BUF_SIZE cfg) - unat (CY_FX_UVC_MAX_HEADER cfg)"
    unfolding payload_size_def by (rule unat_sub[OF le])
  then show "0 < unat (payload_size cfg)"
    using assms by (simp add: sizes_ok_def)
qed

lemma mid_nat:
  assumes "sizes_ok cfg"
    and "unat (frameOffset l) + unat (payload_size cfg) < unat (glVidFrameLen cfg (unat (frameIndex l)))"
  shows "\<not> is_last_packet cfg l"
    and "unat (chunk_length cfg l) = unat (CY_FX_UVC_STREAM_BUF_SIZE cfg)"
    and "unat (frameOffset l + payload_size cfg) = unat (frameOffset l) + unat (payload_size cfg)"
proof -
  have lt: "unat (frameOffset l) + unat (payload_size cfg) < 2 ^ 32"
    using assms(2) unsigned_less[of "glVidFrameLen cfg (unat (frameIndex l))", where 'a = nat]
    by simp
  show add: "unat (frameOffset l + payload_size cfg) = unat (frameOffset l) + unat (payload_size cfg)"
    using lt unat_add_lem[of "frameOffset l" "payload_size cfg"] by simp
  show nl: "\<not> is_last_packet cfg l"
    using assms(2) by (simp add: is_last_packet_def word_less_nat_alt add)
  show "unat (chunk_length cfg l) = unat (CY_FX_UVC_STREAM_BUF_SIZE cfg)"
    using nl assms(1)
    by (simp add: chunk_length_def sizes_ok_def unsigned_ucast_eq take_bit_eq_mod)
qed

lemma last_nat:
  assumes "sizes_ok cfg"
    and "unat (frameOffset l) \<le> unat (glVidFrameLen cfg (unat (frameIndex l)))"
    and "unat (glVidFrameLen cfg (unat (frameIndex l))) - unat (frameOffset l) \<le> unat (payload_size cfg)"
    and "unat (frameOffset l) + unat (payload_size cfg) < 2 ^ 32"
  shows "is_last_packet cfg l"
    and "unat (glVidFrameLen cfg (unat (frameIndex l)) - frameOffset l) =
           unat (glVidFrameLen cfg (unat (frameIndex l))) - unat (frameOffset l)"
    and "unat (chunk_length cfg l) =
           unat (glVidFrameLen cfg (unat (frameIndex l))) - unat (frameOffset l)
             + unat (CY_FX_UVC_MAX_HEADER cfg)"
proof -
  let ?len = "glVidFrameLen cfg (unat (frameIndex l))"
  have add: "unat (frameOffset l + payload_size cfg) = unat (frameOffset l) + unat (payload_size cfg)"
    using assms(4) unat_add_lem[of "frameOffset l" "payload_size cfg"] by simp
  show last: "is_last_packet cfg l"
    using assms(2,3) by (simp add: is_last_packet_def word_less_nat_alt add)
  have le: "frameOffset l \<le> ?len" using assms(2) by (simp add: word_le_nat_alt)
  show sub: "unat (?len - frameOffset l) = unat ?len - unat (frameOffset l)"
    by (rule unat_sub[OF le])
  have p: "unat (payload_size cfg) =
           unat (CY_FX_UVC_STREAM_BUF_SIZE cfg) - unat (CY_FX_UVC_MAX_HEADER cfg)"
    by (rule payload_nat(1)[OF assms(1)])
  have bound: "unat ?len - unat (frameOffset l) + unat (CY_FX_UVC_MAX_HEADER cfg) < 2 ^ 16"
    using assms(1,3) p unfolding sizes_ok_def by linarith
  then have "unat (?len - frameOffset l) + unat (CY_FX_UVC_MAX_HEADER cfg) < 2 ^ 32"
    using sub by simp
  then have "unat (?len - frameOffset l + CY_FX_UVC_MAX_HEADER cfg) =
          unat ?len - unat (frameOffset l) + unat (CY_FX_UVC_MAX_HEADER cfg)"
    using unat_add_lem[of "?len - frameOffset l" "CY_FX_UVC_MAX_HEADER cfg"] sub by simp
  then show "unat (chunk_length cfg l) =
           unat ?len - unat (frameOffset l) + unat (CY_FX_UVC_MAX_HEADER cfg)"
    using last bound by (simp add: chunk_length_def unsigned_ucast_eq take_bit_eq_mod)
qed

lemma stamped_payload:
  assumes "1 < unat (CY_FX_UVC_MAX_HEADER cfg)"
  shows "stamped cfg hdr b eof (unat (CY_FX_UVC_MAX_HEADER cfg) + i) =
           b (unat (CY_FX_UVC_MAX_HEADER cfg) + i)"
  using assms by (simp add: stamped_def)

lemma payload_bytes:
  assumes "i < (if is_last_packet cfg l
                then unat (glVidFrameLen cfg (unat (frameIndex l)) - frameOffset l)
                else unat (payload_size cfg))"
  shows "payload cfg e l (unat (CY_FX_UVC_MAX_HEADER cfg) + i) =
           glUVCVidFrames cfg (unat (frameStart l + frameOffset l) + i)"
  using assms by (simp add: payload_def CyU3PMemCopy_def)

lemma payload_rest:
  assumes "unat (CY_FX_UVC_MAX_HEADER cfg) +
             (if is_last_packet cfg l
              then unat (glVidFrameLen cfg (unat (frameIndex l)) - frameOffset l)
              else unat (payload_size cfg)) \<le> i"
  shows "payload cfg e l i = get_buffer e i"
  using assms by (simp add: payload_def CyU3PMemCopy_def)

lemma index_nat:
  assumes "unat (frameOffset l) \<le> unat (glVidFrameLen cfg (unat (frameIndex l)))"
    and "unat (frameStart l) + unat (glVidFrameLen cfg (unat (frameIndex l))) < 2 ^ 32"
  shows "unat (frameStart l + frameOffset l) = unat (frameStart l) + unat (frameOffset l)"
proof -
  have "unat (frameStart l) + unat (frameOffset l) < 2 ^ 32" using assms by linarith
  then show ?thesis using unat_add_lem[of "frameStart l" "frameOffset l"] by simp
qed

lemma pass_chunk:
  assumes ok: "calls_succeed e" and bits: "header_bits_ok cfg" and sizes: "sizes_ok cfg"
    and inv: "glUVCHeader s 1 AND CY_FX_UVC_HEADER_EOF cfg = 0"
    and off: "unat (frameOffset l) \<le> unat (glVidFrameLen cfg (unat (frameIndex l)))"
    and nw1: "unat (glVidFrameLen cfg (unat (frameIndex l))) + unat (payload_size cfg) < 2 ^ 32"
    and nw2: "unat (frameStart l) + unat (glVidFrameLen cfg (unat (frameIndex l))) < 2 ^ 32"
  shows "\<exists>c. dma_out (pass_state cfg e l s) = dma_out s @ [c]
     \<and> chunk_matches cfg (e, c)
         (if unat (payload_size cfg)
               < unat (glVidFrameLen cfg (unat (frameIndex l))) - unat (frameOffset l)
          then (unat (CY_FX_UVC_STREAM_BUF_SIZE cfg), False,
                unat (frameStart l) + unat (frameOffset l), unat (payload_size cfg))
          else (unat (glVidFrameLen cfg (unat (frameIndex l))) - unat (frameOffset l)
                  + unat (CY_FX_UVC_MAX_HEADER cfg), True,
                unat (frameStart l) + unat (frameOffset l),
                unat (glVidFrameLen cfg (unat (frameIndex l))) - unat (frameOffset l)))"
    and "is_last_packet cfg l =
          (\<not> unat (payload_size cfg)
               < unat (glVidFrameLen cfg (unat (frameIndex l))) - unat (frameOffset l))"
    and "\<not> is_last_packet cfg l \<Longrightarrow>
          unat (frameOffset l + payload_size cfg) = unat (frameOffset l) + unat (payload_size cfg)"
proof -
  let ?L = "unat (glVidFrameLen cfg (unat (frameIndex l)))"
  let ?P = "unat (payload_size cfg)"
  let ?H = "unat (CY_FX_UVC_MAX_HEADER cfg)"
  have h1: "1 < ?H" using bits by (simp add: header_bits_ok_def)
  obtain c where c: "dma_out (pass_state cfg e l s) = dma_out s @ [c]"
    "snd c = chunk_length cfg l"
    "fst c = stamped cfg (glUVCHeader s) (payload cfg e l) (is_last_packet cfg l)"
    "chunk_eof cfg c = is_last_packet cfg l"
    using pass_ok(1)[OF ok bits inv, of l] by blast
  have idx: "unat (frameStart l + frameOffset l) = unat (frameStart l) + unat (frameOffset l)"
    by (rule index_nat[OF off nw2])
  have nw3: "unat (frameOffset l) + ?P < 2 ^ 32" using off nw1 by linarith
  show last_iff: "is_last_packet cfg l = (\<not> ?P < ?L - unat (frameOffset l))"
  proof (cases "?P < ?L - unat (frameOffset l)")
    case True
    then have "unat (frameOffset l) + ?P < ?L" by linarith
    then show ?thesis using mid_nat(1)[OF sizes] True by simp
  next
    case False
    then have "?L - unat (frameOffset l) \<le> ?P" by simp
    then show ?thesis using last_nat(1)[OF sizes off _ nw3] False by simp
  qed
  show "\<not> is_last_packet cfg l \<Longrightarrow>
          unat (frameOffset l + payload_size cfg) = unat (frameOffset l) + unat (payload_size cfg)"
    using nw3 unat_add_lem[of "frameOffset l" "payload_size cfg"] by simp
  have "chunk_matches cfg (e, c)
         (if ?P < ?L - unat (frameOffset l)
          then (unat (CY_FX_UVC_STREAM_BUF_SIZE cfg), False,
                unat (frameStart l) + unat (frameOffset l), ?P)
          else (?L - unat (frameOffset l) + ?H, True,
                unat (frameStart l) + unat (frameOffset l), ?L - unat (frameOffset l)))"
  proof (cases "?P < ?L - unat (frameOffset l)")
    case True
    then have lt: "unat (frameOffset l) + ?P < ?L" by linarith
    have nl: "\<not> is_last_packet cfg l" using last_iff True by simp
    show ?thesis
      using True nl c(2,3,4) mid_nat(2)[OF sizes lt] h1
      by (simp add: chunk_matches_def stamped_payload payload_bytes payload_rest stamped_rest idx)
  next
    case False
    then have le: "?L - unat (frameOffset l) \<le> ?P" by simp
    have la: "is_last_packet cfg l" using last_iff False by simp
    show ?thesis
      using False la c(2,3,4) last_nat(2,3)[OF sizes off le nw3] h1
      by (simp add: chunk_matches_def stamped_payload payload_bytes payload_rest stamped_rest idx)
  qed
  then show "\<exists>c. dma_out (pass_state cfg e l s) = dma_out s @ [c]
     \<and> chunk_matches cfg (e, c)
         (if ?P < ?L - unat (frameOffset l)
          then (unat (CY_FX_UVC_STREAM_BUF_SIZE cfg), False,
                unat (frameStart l) + unat (frameOffset l), ?P)
          else (?L - unat (frameOffset l) + ?H, True,
                unat (frameStart l) + unat (frameOffset l), ?L - unat (frameOffset l)))"
    using c(1) by blast
qed

lemma spec_unfold:
  assumes "H < C"
  shows "frame_chunks_spec C H pos rem =
     (if C - H < rem then (C, False, pos, C - H) else (rem + H, True, pos, rem)) #
     (if C - H < rem then frame_chunks_spec C H (pos + (C - H)) (rem - (C - H)) else [])"
  using assms by (subst frame_chunks_spec.simps) simp

lemma undisturbed_step:
  assumes "undisturbed e" and "glIsApplnActive s"
  shows "video_streamer cfg (e # es) l s =
           video_streamer cfg es (pass_locals cfg e l s) (pass_state cfg e l s)"
proof -
  have "\<not> pass_break cfg e l s"
    using assms(1) by (simp add: undisturbed_def calls_succeed_def pass_break_def loop_body_brk)
  then show ?thesis
    using video_streamer_step[OF assms(2), of cfg e l es] assms(1)
    by (simp add: undisturbed_def usb_event_handled_def)
qed

lemma frame_run:
  assumes bits: "header_bits_ok cfg" and sizes: "sizes_ok cfg"
    and es: "list_all undisturbed es"
    and act: "glIsApplnActive s"
    and inv: "glUVCHeader s 1 AND CY_FX_UVC_HEADER_EOF cfg = 0"
    and off: "unat (frameOffset l) \<le> unat (glVidFrameLen cfg (unat (frameIndex l)))"
    and nw1: "unat (glVidFrameLen cfg (unat (frameIndex l))) + unat (payload_size cfg) < 2 ^ 32"
    and nw2: "unat (frameStart l) + unat (glVidFrameLen cfg (unat (frameIndex l))) < 2 ^ 32"
    and len: "length es = length (frame_chunks_spec (unat (CY_FX_UVC_STREAM_BUF_SIZE cfg))
                (unat (CY_FX_UVC_MAX_HEADER cfg)) (unat (frameStart l) + unat (frameOffset l))
                (unat (glVidFrameLen cfg (unat (frameIndex l))) - unat (frameOffset l)))"
  shows "\<exists>l' s' chunks. video_streamer cfg es l s = Running l' s'
     \<and> dma_out s' = dma_out s @ chunks
     \<and> list_all2 (chunk_matches cfg) (zip es chunks)
          (frame_chunks_spec (unat (CY_FX_UVC_STREAM_BUF_SIZE cfg))
                (unat (CY_FX_UVC_MAX_HEADER cfg)) (unat (frameStart l) + unat (frameOffset l))
                (unat (glVidFrameLen cfg (unat (frameIndex l))) - unat (frameOffset l)))
     \<and> length chunks = length es
     \<and> frameOffset l' = 0
     \<and> frameIndex l' = (if frameIndex l + 1 \<ge> CY_FX_UVC_MAX_VID_FRAMES cfg then 0
                          else frameIndex l + 1)
     \<and> frameStart l' = (if frameIndex l + 1 \<ge> CY_FX_UVC_MAX_VID_FRAMES cfg then 0
                          else frameStart l + glVidFrameLen cfg (unat (frameIndex l)))
     \<and> glIsApplnActive s'
     \<and> glUVCHeader s' = (glUVCHeader s)(1 := glUVCHeader s 1 XOR CY_FX_UVC_HEADER_FRAME_ID cfg)"
  using es act inv off nw1 nw2 len
proof (induction es arbitrary: l s)
  case Nil
  have "H < C \<Longrightarrow> frame_chunks_spec C H pos rem \<noteq> []" for C H pos rem
    by (subst spec_unfold) simp_all
  moreover have "unat (CY_FX_UVC_MAX_HEADER cfg) < unat (CY_FX_UVC_STREAM_BUF_SIZE cfg)"
    using sizes by (simp add: sizes_ok_def)
  ultimately show ?case using Nil.prems(7) by simp
next
  case (Cons e es)
  let ?C = "unat (CY_FX_UVC_STREAM_BUF_SIZE cfg)"
  let ?H = "unat (CY_FX_UVC_MAX_HEADER cfg)"
  let ?P = "unat (payload_size cfg)"
  let ?L = "unat (glVidFrameLen cfg (unat (frameIndex l)))"
  let ?o = "unat (frameOffset l)"
  let ?st = "unat (frameStart l)"
  let ?l1 = "pass_locals cfg e l s"
  let ?s1 = "pass_state cfg e l s"
  have e: "undisturbed e" and es: "list_all undisturbed es" using Cons.prems(1) by simp_all
  have ok: "calls_succeed e" using e by (simp add: undisturbed_def)
  have HC: "?H < ?C" using sizes by (simp add: sizes_ok_def)
  have P: "?P = ?C - ?H" by (rule payload_nat(1)[OF sizes])
  note pc = pass_chunk[OF ok bits sizes Cons.prems(3,4,5,6)]
  obtain c where c: "dma_out ?s1 = dma_out s @ [c]"
    "chunk_matches cfg (e, c)
       (if ?P < ?L - ?o then (?C, False, ?st + ?o, ?P) else (?L - ?o + ?H, True, ?st + ?o, ?L - ?o))"
    using pc(1) by blast
  have step: "video_streamer cfg (e # es) l s = video_streamer cfg es ?l1 ?s1"
    by (rule undisturbed_step[OF e Cons.prems(2)])
  have act1: "glIsApplnActive ?s1"
    using Cons.prems(2) by (simp add: pass_state_def loop_body_active)
  have cur: "next_cursor cfg l ?l1"
    unfolding pass_locals_def using ok
    by (intro loop_body_cursor) (simp_all add: calls_succeed_def)
  note po = pass_ok[OF ok bits Cons.prems(3), of l]
  have spec: "frame_chunks_spec ?C ?H (?st + ?o) (?L - ?o) =
     (if ?P < ?L - ?o then (?C, False, ?st + ?o, ?P) else (?L - ?o + ?H, True, ?st + ?o, ?L - ?o)) #
     (if ?P < ?L - ?o then frame_chunks_spec ?C ?H (?st + ?o + ?P) (?L - ?o - ?P) else [])"
    unfolding P by (rule spec_unfold[OF HC])
  show ?case
  proof (cases "?P < ?L - ?o")
    case True
    then have nl: "\<not> is_last_packet cfg l" using pc(2) by simp
    have o1: "unat (frameOffset ?l1) = ?o + ?P"
      using cur nl pc(3) by (simp add: next_cursor_def)
    have i1: "frameIndex ?l1 = frameIndex l" and st1: "frameStart ?l1 = frameStart l"
      using cur nl by (simp_all add: next_cursor_def)
    have h1: "glUVCHeader ?s1 = glUVCHeader s" using po(2) nl by simp
    have len1: "length es = length (frame_chunks_spec ?C ?H
                  (unat (frameStart ?l1) + unat (frameOffset ?l1))
                  (unat (glVidFrameLen cfg (unat (frameIndex ?l1))) - unat (frameOffset ?l1)))"
      using Cons.prems(7) True unfolding spec o1 i1 st1 by (simp add: add.assoc)
    have off1: "unat (frameOffset ?l1) \<le> unat (glVidFrameLen cfg (unat (frameIndex ?l1)))"
      unfolding o1 i1 using True by linarith
    obtain l' s' chunks where r: "video_streamer cfg es ?l1 ?s1 = Running l' s'"
      "dma_out s' = dma_out ?s1 @ chunks"
      "list_all2 (chunk_matches cfg) (zip es chunks)
          (frame_chunks_spec ?C ?H (unat (frameStart ?l1) + unat (frameOffset ?l1))
                (unat (glVidFrameLen cfg (unat (frameIndex ?l1))) - unat (frameOffset ?l1)))"
      "length chunks = length es"
      "frameOffset l' = 0"
      "frameIndex l' = (if frameIndex ?l1 + 1 \<ge> CY_FX_UVC_MAX_VID_FRAMES cfg then 0
                          else frameIndex ?l1 + 1)"
      "frameStart l' = (if frameIndex ?l1 + 1 \<ge> CY_FX_UVC_MAX_VID_FRAMES cfg then 0
                          else frameStart ?l1 + glVidFrameLen cfg (unat (frameIndex ?l1)))"
      "glIsApplnActive s'"
      "glUVCHeader s' = (glUVCHeader ?s1)(1 := glUVCHeader ?s1 1 XOR CY_FX_UVC_HEADER_FRAME_ID cfg)"
      using Cons.IH[OF es act1 _ off1 _ _ len1] po(3) Cons.prems(5,6) unfolding i1 st1
      by blast
    have m: "list_all2 (chunk_matches cfg) (zip (e # es) (c # chunks))
              (frame_chunks_spec ?C ?H (?st + ?o) (?L - ?o))"
      using c(2) r(3) True unfolding spec o1 i1 st1 by (simp add: add.assoc)
    show ?thesis
      apply (rule exI[of _ l'], rule exI[of _ s'], rule exI[of _ "c # chunks"])
      using step r(1,2,4,5,6,7,8,9) c(1) m unfolding i1 st1 h1
      by simp
  next
    case False
    then have la: "is_last_packet cfg l" using pc(2) by simp
    have es_nil: "es = []"
      using Cons.prems(7) False unfolding spec by simp
    have h1: "glUVCHeader ?s1 =
               (glUVCHeader s)(1 := glUVCHeader s 1 XOR CY_FX_UVC_HEADER_FRAME_ID cfg)"
      using po(2) la by simp
    have m: "list_all2 (chunk_matches cfg) (zip (e # es) [c])
              (frame_chunks_spec ?C ?H (?st + ?o) (?L - ?o))"
      using c(2) False unfolding spec es_nil by simp
    show ?thesis
      apply (rule exI[of _ ?l1], rule exI[of _ ?s1], rule exI[of _ "[c]"])
      using step act1 cur la c(1) m h1 unfolding es_nil
      by (simp add: next_cursor_def)
  qed
qed

lemma spec_sum:
  "H < C \<Longrightarrow> sum_list (map fst (frame_chunks_spec C H pos rem))
     = H * length (frame_chunks_spec C H pos rem) + rem"
proof (induction C H pos rem rule: frame_chunks_spec.induct)
  case (1 C H pos rem)
  show ?case
  proof (cases "C - H < rem")
    case True
    then show ?thesis
      using "1.IH" "1.prems" by (subst (1 2) spec_unfold) simp_all
  next
    case False
    then show ?thesis using "1.prems" by (subst (1 2) spec_unfold) simp_all
  qed
qed

lemma spec_eof:
  "H < C \<Longrightarrow> map (\<lambda>x. fst (snd x)) (frame_chunks_spec C H pos rem)
     = replicate (length (frame_chunks_spec C H pos rem) - 1) False @ [True]"
proof (induction C H pos rem rule: frame_chunks_spec.induct)
  case (1 C H pos rem)
  show ?case
  proof (cases "C - H < rem")
    case True
    have ne: "frame_chunks_spec C H (pos + (C - H)) (rem - (C - H)) \<noteq> []"
      using "1.prems" by (subst spec_unfold) simp_all
    then obtain n where n: "length (frame_chunks_spec C H (pos + (C - H)) (rem - (C - H))) = Suc n"
      by (cases "frame_chunks_spec C H (pos + (C - H)) (rem - (C - H))") auto
    show ?thesis
      using "1.IH" "1.prems" True n by (subst (1 2) spec_unfold) simp_all
  next
    case False
    then show ?thesis using "1.prems" by (subst (1 2) spec_unfold) simp_all
  qed
qed

lemma matches_view:
  assumes "chunk_matches cfg (e, c) x"
  shows "unat (snd c) = fst x" and "chunk_eof cfg c = fst (snd x)"
  using assms by (cases x; auto simp: chunk_matches_def)+

lemma matches_views:
  assumes "list_all2 (chunk_matches cfg) (zip es chunks) spec" and "length chunks = length es"
  shows "map (\<lambda>c. unat (snd c)) chunks = map fst spec"
    and "map (chunk_eof cfg) chunks = map (\<lambda>x. fst (snd x)) spec"
proof -
  have len: "length chunks = length spec"
    using assms by (auto dest: list_all2_lengthD)
  have nth: "chunk_matches cfg (es ! i, chunks ! i) (spec ! i)" if "i < length chunks" for i
    using list_all2_nthD[OF assms(1), of i] that assms(2) by simp
  show "map (\<lambda>c. unat (snd c)) chunks = map fst spec"
    using len matches_view(1)[OF nth] by (intro nth_equalityI) simp_all
  show "map (chunk_eof cfg) chunks = map (\<lambda>x. fst (snd x)) spec"
    using len matches_view(2)[OF nth] by (intro nth_equalityI) simp_all
qed

lemma scenario_sizes:
  "sizes_ok scenario_cfg" "capacity scenario_cfg = 1012" "header_len scenario_cfg = 12"
  "unat (payload_size scenario_cfg) = 1000" "CY_FX_UVC_MAX_VID_FRAMES scenario_cfg = 3"
  "CY_FX_UVC_HEADER_EOF scenario_cfg = 2" "CY_FX_UVC_HEADER_FRAME_ID scenario_cfg = 1"
  "glVidFrameLen scenario_cfg 0 = 5000" "glVidFrameLen scenario_cfg (Suc 0) = 200"
  "glVidFrameLen scenario_cfg 2 = 10000"
  by (simp_all add: sizes_ok_def scenario_cfg_def payload_size_def)

lemma scenario_specs:
  "frame_chunks_spec 1012 12 0 5000 =
     [(1012, False, 0, 1000), (1012, False, 1000, 1000), (1012, False, 2000, 1000),
      (1012, False, 3000, 1000), (1012, True, 4000, 1000)]"
  "frame_chunks_spec 1012 12 5000 200 = [(212, True, 5000, 200)]"
  "frame_chunks_spec 1012 12 5200 10000 =
     [(1012, False, 5200, 1000), (1012, False, 6200, 1000), (1012, False, 7200, 1000),
      (1012, False, 8200, 1000), (1012, False, 9200, 1000), (1012, False, 10200, 1000),
      (1012, False, 11200, 1000), (1012, False, 12200, 1000), (1012, False, 13200, 1000),
      (1012, True, 14200, 1000)]"
  by (simp_all add: frame_chunks_spec.simps)

lemma busy_state_stream:
  "glIsApplnActive busy_state" "glUVCHeader busy_state (Suc 0) = 0x8C" "dma_out busy_state = []"
  by (simp_all add: busy_state_def)

lemma undisturbed_ok_env: "undisturbed (ok_env sp)"
  by (simp add: undisturbed_def calls_succeed_def ok_env_simps)

text \<open>
  C4: let the counters stand at the start of a frame of the playlist, in an active
  stream, and let as many passes follow as the frame has packets, each with successful
  SDK calls.  Then the loop commits exactly the packets of the specification: while more
  than capacity minus header length remains, a packet that carries that many bytes of
  the frame, is committed with the full capacity and is not marked EOF; then a last
  packet that carries the remaining bytes, is committed with their number plus the header
  length and is marked EOF.  The committed lengths sum to header length times the number
  of packets plus the length of the frame, only the last packet is marked EOF, and the
  counters move to the next frame.
\<close>

theorem C4_frame_chunks:
  assumes "header_bits_ok cfg" and "sizes_ok cfg"
    and "list_all undisturbed es"
    and "glIsApplnActive s" and "glUVCHeader s 1 AND CY_FX_UVC_HEADER_EOF cfg = 0"
    and "frameOffset l = 0"
    and "cur_frame_len cfg l + (capacity cfg - header_len cfg) < 2 ^ 32"
    and "unat (frameStart l) + cur_frame_len cfg l < 2 ^ 32"
    and "length es = length (frame_chunks_spec (capacity cfg) (header_len cfg)
                               (unat (frameStart l)) (cur_frame_len cfg l))"
  shows "\<exists>l' s' chunks. video_streamer cfg es l s = Running l' s'
     \<and> dma_out s' = dma_out s @ chunks \<and> length chunks = length es
     \<and> list_all2 (chunk_matches cfg) (zip es chunks)
          (frame_chunks_spec (capacity cfg) (header_len cfg) (unat (frameStart l))
             (cur_frame_len cfg l))
     \<and> sum_list (map (\<lambda>c. unat (snd c)) chunks)
          = header_len cfg * length chunks + cur_frame_len cfg l
     \<and> map (chunk_eof cfg) chunks = replicate (length chunks - 1) False @ [True]
     \<and> frameOffset l' = 0
     \<and> frameIndex l' = (if frameIndex l + 1 \<ge> CY_FX_UVC_MAX_VID_FRAMES cfg then 0
                          else frameIndex l + 1)
     \<and> frameStart l' = (if frameIndex l + 1 \<ge> CY_FX_UVC_MAX_VID_FRAMES cfg then 0
                          else frameStart l + glVidFrameLen cfg (unat (frameIndex l)))"
proof -
  let ?spec = "frame_chunks_spec (capacity cfg) (header_len cfg) (unat (frameStart l))
                 (cur_frame_len cfg l)"
  have HC: "header_len cfg < capacity cfg" using assms(2) by (simp add: sizes_ok_def)
  have P: "unat (payload_size cfg) = capacity cfg - header_len cfg"
    by (rule payload_nat(1)[OF assms(2)])
  obtain l' s' chunks where r: "video_streamer cfg es l s = Running l' s'"
    "dma_out s' = dma_out s @ chunks"
    "list_all2 (chunk_matches cfg) (zip es chunks) ?spec"
    "length chunks = length es"
    "frameOffset l' = 0"
    "frameIndex l' = (if frameIndex l + 1 \<ge> CY_FX_UVC_MAX_VID_FRAMES cfg then 0
                          else frameIndex l + 1)"
    "frameStart l' = (if frameIndex l + 1 \<ge> CY_FX_UVC_MAX_VID_FRAMES cfg then 0
                          else frameStart l + glVidFrameLen cfg (unat (frameIndex l)))"
    using frame_run[OF assms(1,2,3,4,5), of l] assms(6,7,8,9) P by auto
  have len: "length chunks = length ?spec" using r(4) assms(9) by simp
  have sum: "sum_list (map (\<lambda>c. unat (snd c)) chunks)
          = header_len cfg * length chunks + cur_frame_len cfg l"
    unfolding matches_views(1)[OF r(3,4)] len by (rule spec_sum[OF HC])
  have eof: "map (chunk_eof cfg) chunks = replicate (length chunks - 1) False @ [True]"
    unfolding matches_views(2)[OF r(3,4)] len by (rule spec_eof[OF HC])
  show ?thesis
    using r sum eof by blast
qed

theorem C4_frame_chunks_witness:
  "\<exists>l' s' chunks.
     video_streamer scenario_cfg (replicate 5 (ok_env CY_U3P_HIGH_SPEED)) start_locals busy_state
       = Running l' s'
     \<and> dma_out s' = chunks
     \<and> map (\<lambda>c. unat (snd c)) chunks = [1012, 1012, 1012, 1012, 1012]
     \<and> map (chunk_eof scenario_cfg) chunks = [False, False, False, False, True]
     \<and> sum_list (map (\<lambda>c. unat (snd c)) chunks) = 12 * 5 + 5000
     \<and> frameOffset l' = 0 \<and> frameIndex l' = 1 \<and> frameStart l' = 5000"
proof -
  let ?es = "replicate 5 (ok_env CY_U3P_HIGH_SPEED)"
  have h3: "list_all undisturbed ?es"
    by (simp add: list_all_iff undisturbed_ok_env)
  have h5: "glUVCHeader busy_state 1 AND CY_FX_UVC_HEADER_EOF scenario_cfg = 0"
    by (simp add: busy_state_stream scenario_sizes)
  have h7: "cur_frame_len scenario_cfg start_locals
              + (capacity scenario_cfg - header_len scenario_cfg) < 2 ^ 32"
    and h8: "unat (frameStart start_locals) + cur_frame_len scenario_cfg start_locals < 2 ^ 32"
    and h9: "length ?es = length (frame_chunks_spec (capacity scenario_cfg)
               (header_len scenario_cfg) (unat (frameStart start_locals))
               (cur_frame_len scenario_cfg start_locals))"
    by (simp_all add: start_locals_simps scenario_sizes scenario_specs)
  obtain l' s' chunks where r:
    "video_streamer scenario_cfg ?es start_locals busy_state = Running l' s'"
    "dma_out s' = dma_out busy_state @ chunks" "length chunks = length ?es"
    "list_all2 (chunk_matches scenario_cfg) (zip ?es chunks)
       (frame_chunks_spec (capacity scenario_cfg) (header_len scenario_cfg)
          (unat (frameStart start_locals)) (cur_frame_len scenario_cfg start_locals))"
    "sum_list (map (\<lambda>c. unat (snd c)) chunks)
       = header_len scenario_cfg * length chunks + cur_frame_len scenario_cfg start_locals"
    "map (chunk_eof scenario_cfg) chunks = replicate (length chunks - 1) False @ [True]"
    "frameOffset l' = 0"
    "frameIndex l' = (if frameIndex start_locals + 1 \<ge> CY_FX_UVC_MAX_VID_FRAMES scenario_cfg
                      then 0 else frameIndex start_locals + 1)"
    "frameStart l' = (if frameIndex start_locals + 1 \<ge> CY_FX_UVC_MAX_VID_FRAMES scenario_cfg
                      then 0 else frameStart start_locals
                             + glVidFrameLen scenario_cfg (unat (frameIndex start_locals)))"
    using C4_frame_chunks[OF scenario_bits_ok scenario_sizes(1) h3 busy_state_stream(1) h5
        start_locals_simps(2) h7 h8 h9]
    by blast
  have lens: "map (\<lambda>c. unat (snd c)) chunks = [1012, 1012, 1012, 1012, 1012]"
    using matches_views(1)[OF r(4,3)]
    by (simp add: start_locals_simps scenario_sizes scenario_specs)
  have eofs: "map (chunk_eof scenario_cfg) chunks = [False, False, False, False, True]"
    using r(6,3) by (simp add: numeral_eq_Suc)
  show ?thesis
    using r(1,2,5,7,8,9) lens eofs r(3)
    by (simp add: busy_state_stream start_locals_simps scenario_sizes word_le_nat_alt)
qed

subsection \<open>The frame id over whole frames\<close>

lemma frame_start_Suc:
  "frame_start_of cfg 0 = 0"
  "frame_start_of cfg (Suc i) = frame_start_of cfg i + unat (glVidFrameLen cfg i)"
  by (simp_all add: frame_start_of_def)

lemma frame_start_mono: "i \<le> j \<Longrightarrow> frame_start_of cfg i \<le> frame_start_of cfg j"
proof (induction j)
  case 0
  then show ?case by simp
next
  case (Suc j)
  then show ?case by (cases "i = Suc j") (auto simp: frame_start_Suc)
qed

lemma playlist_bounds:
  assumes "playlist_ok cfg" and "i < unat (CY_FX_UVC_MAX_VID_FRAMES cfg)"
  shows "frame_start_of cfg i + unat (glVidFrameLen cfg i) + unat (payload_size cfg) < 2 ^ 32"
proof -
  have "frame_start_of cfg (Suc i) \<le> frame_start_of cfg (unat (CY_FX_UVC_MAX_VID_FRAMES cfg))"
    using assms(2) by (intro frame_start_mono) simp
  then show ?thesis
    using assms(1) by (simp add: playlist_ok_def frame_start_Suc)
qed

lemma count_eof:
  assumes "map P cs = replicate n False @ [True]"
  shows "length (filter P cs) = 1"
proof -
  have "length (filter P cs) = length (filter (\<lambda>b. b) (map P cs))"
    by (simp add: filter_map comp_def)
  then show ?thesis unfolding assms by simp
qed

lemma frame_toggle:
  assumes bits: "header_bits_ok cfg" and sizes: "sizes_ok cfg"
    and es: "list_all undisturbed es"
    and act: "glIsApplnActive s"
    and inv: "glUVCHeader s 1 AND CY_FX_UVC_HEADER_EOF cfg = 0"
    and off: "frameOffset l = 0"
    and nw1: "cur_frame_len cfg l + unat (payload_size cfg) < 2 ^ 32"
    and nw2: "unat (frameStart l) + cur_frame_len cfg l < 2 ^ 32"
    and len: "length es = length (frame_chunks_spec (capacity cfg) (header_len cfg)
                (unat (frameStart l)) (cur_frame_len cfg l))"
  shows "\<exists>l' s' chunks. video_streamer cfg es l s = Running l' s'
     \<and> dma_out s' = dma_out s @ chunks
     \<and> length (filter (chunk_eof cfg) chunks) = 1
     \<and> frameOffset l' = 0
     \<and> frameIndex l' = (if frameIndex l + 1 \<ge> CY_FX_UVC_MAX_VID_FRAMES cfg then 0
                          else frameIndex l + 1)
     \<and> frameStart l' = (if frameIndex l + 1 \<ge> CY_FX_UVC_MAX_VID_FRAMES cfg then 0
                          else frameStart l + glVidFrameLen cfg (unat (frameIndex l)))
     \<and> glIsApplnActive s'
     \<and> glUVCHeader s' = (glUVCHeader s)(1 := glUVCHeader s 1 XOR CY_FX_UVC_HEADER_FRAME_ID cfg)"
proof -
  let ?spec = "frame_chunks_spec (capacity cfg) (header_len cfg) (unat (frameStart l))
                 (cur_frame_len cfg l)"
  have hc: "header_len cfg < capacity cfg"
    using sizes by (simp add: sizes_ok_def)
  obtain l' s' chunks where r: "video_streamer cfg es l s = Running l' s'"
    "dma_out s' = dma_out s @ chunks"
    "list_all2 (chunk_matches cfg) (zip es chunks) ?spec"
    "length chunks = length es"
    "frameOffset l' = 0"
    "frameIndex l' = (if frameIndex l + 1 \<ge> CY_FX_UVC_MAX_VID_FRAMES cfg then 0
                          else frameIndex l + 1)"
    "frameStart l' = (if frameIndex l + 1 \<ge> CY_FX_UVC_MAX_VID_FRAMES cfg then 0
                          else frameStart l + glVidFrameLen cfg (unat (frameIndex l)))"
    "glIsApplnActive s'"
    "glUVCHeader s' = (glUVCHeader s)(1 := glUVCHeader s 1 XOR CY_FX_UVC_HEADER_FRAME_ID cfg)"
    using frame_run[OF bits sizes es act inv, of l] off nw1 nw2 len by auto
  have "map (chunk_eof cfg) chunks = replicate (length ?spec - 1) False @ [True]"
    using matches_views(2)[OF r(3,4)] spec_eof[OF hc] by simp
  then have "length (filter (chunk_eof cfg) chunks) = 1"
    by (rule count_eof)
  then show ?thesis
    using r(1,2,5,6,7,8,9) by blast
qed

lemma next_cursor_nat:
  assumes pl: "playlist_ok cfg"
    and i: "unat (frameIndex l) = i" "i < unat (CY_FX_UVC_MAX_VID_FRAMES cfg)"
    and st: "unat (frameStart l) = frame_start_of cfg i"
  shows "unat (if frameIndex l + 1 \<ge> CY_FX_UVC_MAX_VID_FRAMES cfg then 0 else frameIndex l + 1)
           = next_frame cfg i"
    and "unat (if frameIndex l + 1 \<ge> CY_FX_UVC_MAX_VID_FRAMES cfg then 0
               else frameStart l + glVidFrameLen cfg (unat (frameIndex l)))
           = frame_start_of cfg (next_frame cfg i)"
    and "next_frame cfg i < unat (CY_FX_UVC_MAX_VID_FRAMES cfg)"
proof -
  have lt: "unat (CY_FX_UVC_MAX_VID_FRAMES cfg) < 2 ^ 32"
    using unsigned_less[of "CY_FX_UVC_MAX_VID_FRAMES cfg", where 'a = nat] by simp
  have "unat (frameIndex l) + unat (1::u32) < 2 ^ LENGTH(32)"
    using i lt by simp
  then have idx: "unat (frameIndex l + 1) = i + 1"
    using unat_add_lem[of "frameIndex l" 1] i(1) by simp
  have cmp: "(frameIndex l + 1 \<ge> CY_FX_UVC_MAX_VID_FRAMES cfg)
               = (unat (CY_FX_UVC_MAX_VID_FRAMES cfg) \<le> i + 1)"
    by (simp add: word_le_nat_alt idx)
  have "unat (frameStart l) + unat (glVidFrameLen cfg i) < 2 ^ LENGTH(32)"
    using playlist_bounds[OF pl i(2)] st by simp
  then have sum: "unat (frameStart l + glVidFrameLen cfg i) = frame_start_of cfg (Suc i)"
    using unat_add_lem[of "frameStart l" "glVidFrameLen cfg i"] st by (simp add: frame_start_Suc)
  show "unat (if frameIndex l + 1 \<ge> CY_FX_UVC_MAX_VID_FRAMES cfg then 0 else frameIndex l + 1)
           = next_frame cfg i"
    unfolding cmp by (simp add: next_frame_def idx)
  show "unat (if frameIndex l + 1 \<ge> CY_FX_UVC_MAX_VID_FRAMES cfg then 0
               else frameStart l + glVidFrameLen cfg (unat (frameIndex l)))
           = frame_start_of cfg (next_frame cfg i)"
    unfolding cmp using sum by (simp add: next_frame_def i(1) frame_start_Suc)
  show "next_frame cfg i < unat (CY_FX_UVC_MAX_VID_FRAMES cfg)"
    using i(2) by (simp add: next_frame_def)
qed

lemma toggle_twice:
  "((x::u8) XOR f) XOR (if odd n then f else 0) = x XOR (if odd (Suc n) then f else 0)"
  by (simp add: xor.assoc)

lemma frames_run:
  assumes bits: "header_bits_ok cfg" and sizes: "sizes_ok cfg" and pl: "playlist_ok cfg"
  shows "list_all undisturbed es \<Longrightarrow> glIsApplnActive s
     \<Longrightarrow> glUVCHeader s 1 AND CY_FX_UVC_HEADER_EOF cfg = 0
     \<Longrightarrow> frameOffset l = 0 \<Longrightarrow> unat (frameIndex l) = i
     \<Longrightarrow> i < unat (CY_FX_UVC_MAX_VID_FRAMES cfg)
     \<Longrightarrow> unat (frameStart l) = frame_start_of cfg i
     \<Longrightarrow> length es = frames_passes cfg i n
     \<Longrightarrow> \<exists>l' s' chunks. video_streamer cfg es l s = Running l' s'
           \<and> dma_out s' = dma_out s @ chunks
           \<and> length (filter (chunk_eof cfg) chunks) = n
           \<and> glUVCHeader s' 1 = glUVCHeader s 1 XOR
                (if odd n then CY_FX_UVC_HEADER_FRAME_ID cfg else 0)
           \<and> frameOffset l' = 0
           \<and> unat (frameIndex l') = frame_after cfg i n"
proof (induction n arbitrary: es l s i)
  case 0
  then have "video_streamer cfg es l s = Running l s" by simp
  then show ?case using 0 by simp
next
  case (Suc n)
  let ?spec = "frame_chunks_spec (capacity cfg) (header_len cfg) (frame_start_of cfg i)
                 (unat (glVidFrameLen cfg i))"
  let ?k = "length ?spec"
  have fid: "CY_FX_UVC_HEADER_FRAME_ID cfg AND CY_FX_UVC_HEADER_EOF cfg = 0"
    using bits by (simp add: header_bits_ok_def)
  have len: "length es = ?k + frames_passes cfg (next_frame cfg i) n"
    using Suc.prems(8) by simp
  have split: "es = take ?k es @ drop ?k es" by simp
  have lens: "length (take ?k es) = ?k" "length (drop ?k es) = frames_passes cfg (next_frame cfg i) n"
    using len by simp_all
  have all: "list_all undisturbed (take ?k es)" "list_all undisturbed (drop ?k es)"
    using Suc.prems(1) append_take_drop_id[of ?k es] list_all_append[of undisturbed "take ?k es" "drop ?k es"]
    by simp_all
  note b = playlist_bounds[OF pl Suc.prems(6)]
  have nw1: "cur_frame_len cfg l + unat (payload_size cfg) < 2 ^ 32"
    using b Suc.prems(5) by simp
  have nw2: "unat (frameStart l) + cur_frame_len cfg l < 2 ^ 32"
    using b Suc.prems(5,7) by simp
  have len0: "length (take ?k es) = length (frame_chunks_spec (capacity cfg) (header_len cfg)
                (unat (frameStart l)) (cur_frame_len cfg l))"
    using lens(1) Suc.prems(5,7) by simp
  obtain l1 s1 c1 where r: "video_streamer cfg (take ?k es) l s = Running l1 s1"
    "dma_out s1 = dma_out s @ c1"
    "length (filter (chunk_eof cfg) c1) = 1"
    "frameOffset l1 = 0"
    "frameIndex l1 = (if frameIndex l + 1 \<ge> CY_FX_UVC_MAX_VID_FRAMES cfg then 0
                          else frameIndex l + 1)"
    "frameStart l1 = (if frameIndex l + 1 \<ge> CY_FX_UVC_MAX_VID_FRAMES cfg then 0
                          else frameStart l + glVidFrameLen cfg (unat (frameIndex l)))"
    "glIsApplnActive s1"
    "glUVCHeader s1 = (glUVCHeader s)(1 := glUVCHeader s 1 XOR CY_FX_UVC_HEADER_FRAME_ID cfg)"
    using frame_toggle[OF bits sizes all(1) Suc.prems(2,3,4) nw1 nw2 len0] by blast
  note c = next_cursor_nat[OF pl Suc.prems(5,6,7)]
  have i1: "unat (frameIndex l1) = next_frame cfg i"
    unfolding r(5) by (rule c(1))
  have st1: "unat (frameStart l1) = frame_start_of cfg (next_frame cfg i)"
    unfolding r(6) by (rule c(2))
  have inv1: "glUVCHeader s1 1 AND CY_FX_UVC_HEADER_EOF cfg = 0"
    unfolding r(8) using Suc.prems(3) xor_keeps_eof[OF fid] by simp
  obtain l2 s2 c2 where r2: "video_streamer cfg (drop ?k es) l1 s1 = Running l2 s2"
    "dma_out s2 = dma_out s1 @ c2"
    "length (filter (chunk_eof cfg) c2) = n"
    "glUVCHeader s2 1 = glUVCHeader s1 1 XOR
                (if odd n then CY_FX_UVC_HEADER_FRAME_ID cfg else 0)"
    "frameOffset l2 = 0"
    "unat (frameIndex l2) = frame_after cfg (next_frame cfg i) n"
    using Suc.IH[OF all(2) r(7) inv1 r(4) i1 c(3) st1 lens(2)] by blast
  have run: "video_streamer cfg es l s = Running l2 s2"
    by (subst split) (simp only: video_streamer_append r(1) run.case r2(1))
  have out: "dma_out s2 = dma_out s @ (c1 @ c2)"
    by (simp add: r(2) r2(2))
  have cnt: "length (filter (chunk_eof cfg) (c1 @ c2)) = Suc n"
    by (simp add: r(3) r2(3))
  have hdr: "glUVCHeader s2 1 = glUVCHeader s 1 XOR
                (if odd (Suc n) then CY_FX_UVC_HEADER_FRAME_ID cfg else 0)"
    unfolding r2(4) r(8) using toggle_twice[of "glUVCHeader s 1" "CY_FX_UVC_HEADER_FRAME_ID cfg" n]
    by simp
  have idx: "unat (frameIndex l2) = frame_after cfg i (Suc n)"
    using r2(6) by simp
  show ?case
    using run out cnt hdr r2(5) idx by blast
qed

lemma scenario_playlist:
  "playlist_ok scenario_cfg"
  "frames_passes scenario_cfg 0 3 = 16"
  "frame_after scenario_cfg 0 3 = 0"
proof -
  have n3: "(3::nat) = Suc (Suc (Suc 0))" by simp
  have m: "unat (CY_FX_UVC_MAX_VID_FRAMES scenario_cfg) = Suc (Suc (Suc 0))"
    by (simp add: scenario_sizes)
  have L: "unat (glVidFrameLen scenario_cfg 0) = 5000"
    "unat (glVidFrameLen scenario_cfg (Suc 0)) = 200"
    "unat (glVidFrameLen scenario_cfg (Suc (Suc 0))) = 10000"
    by (simp_all add: scenario_cfg_def)
  have st: "frame_start_of scenario_cfg 0 = 0" "frame_start_of scenario_cfg (Suc 0) = 5000"
    "frame_start_of scenario_cfg (Suc (Suc 0)) = 5200"
    "frame_start_of scenario_cfg (Suc (Suc (Suc 0))) = 15200"
    by (simp_all add: frame_start_Suc L)
  have nx: "next_frame scenario_cfg 0 = Suc 0" "next_frame scenario_cfg (Suc 0) = Suc (Suc 0)"
    "next_frame scenario_cfg (Suc (Suc 0)) = 0"
    by (simp_all add: next_frame_def m)
  show "playlist_ok scenario_cfg"
    unfolding playlist_ok_def m by (simp add: st scenario_sizes)
  show "frames_passes scenario_cfg 0 3 = 16"
    unfolding n3 by (simp add: st nx L scenario_sizes(2,3) scenario_specs)
  show "frame_after scenario_cfg 0 3 = 0"
    unfolding n3 by (simp add: nx)
qed

text \<open>
  C5: \<^verbatim>\<open>CyFxUVCAddHeader\<close> copies the header template into the buffer; only when it
  stamps an end of frame does it toggle the frame id in the template and set the EOF
  bit, in the byte of the buffer and never in the template.  So when a round of the
  thread has streamed \<open>n\<close> whole frames of the playlist since the reset of line 657 (the
  passes of the first \<open>n\<close> frames, each frame taking the packets the specification gives
  it, with every SDK call succeeding and no USB event), the thread is still streaming
  at the start of the frame that follows, exactly \<open>n\<close> of the committed buffers carry the
  EOF mark, and the frame id byte of the template is its reset value XOR the frame id
  bit if \<open>n\<close> is odd, and the reset value itself if \<open>n\<close> is even: one flip for each
  completed frame.
\<close>

theorem C5_frame_id_toggle:
  assumes "header_bits_ok cfg" and "sizes_ok cfg" and "playlist_ok cfg"
    and "list_all undisturbed es" and "glIsApplnActive s0"
    and "length es = frames_passes cfg 0 n"
  shows "fst (CyFxUVCAddHeader cfg b ind s) =
           (\<lambda>i. if ind = CY_FX_UVC_HEADER_EOF cfg \<and> i = 1
                then glUVCHeader s 1 OR CY_FX_UVC_HEADER_EOF cfg
                else if i < unat (CY_FX_UVC_MAX_HEADER cfg) then glUVCHeader s i else b i)
       \<and> snd (CyFxUVCAddHeader cfg b ind s) =
           (if ind = CY_FX_UVC_HEADER_EOF cfg
            then s\<lparr>glUVCHeader := (glUVCHeader s)
                     (1 := glUVCHeader s 1 XOR CY_FX_UVC_HEADER_FRAME_ID cfg)\<rparr>
            else s)
       \<and> glUVCHeader (snd (CyFxUVCAddHeader cfg b ind s)) 1 AND CY_FX_UVC_HEADER_EOF cfg
           = glUVCHeader s 1 AND CY_FX_UVC_HEADER_EOF cfg
       \<and> (\<exists>l' s'. thread_round cfg es l0 s0 = Streaming l' s'
             \<and> frameOffset l' = 0 \<and> unat (frameIndex l') = frame_after cfg 0 n)
       \<and> length (filter (chunk_eof cfg)
            (new_chunks s0 (outcome_state (thread_round cfg es l0 s0)))) = n
       \<and> glUVCHeader (outcome_state (thread_round cfg es l0 s0)) 1 =
           CY_FX_UVC_HEADER_DEFAULT_BFH cfg XOR
             (if odd n then CY_FX_UVC_HEADER_FRAME_ID cfg else 0)"
proof -
  have bits: "CY_FX_UVC_HEADER_FRAME_ID cfg AND CY_FX_UVC_HEADER_EOF cfg = 0"
    "CY_FX_UVC_HEADER_DEFAULT_BFH cfg AND CY_FX_UVC_HEADER_EOF cfg = 0"
    "1 < unat (CY_FX_UVC_MAX_HEADER cfg)"
    using assms(1) by (simp_all add: header_bits_ok_def)
  let ?l = "l0\<lparr>frameStart := 0, frameIndex := 0, frameOffset := 0\<rparr>"
  let ?s = "s0\<lparr>glUVCHeader := (glUVCHeader s0)(1 := CY_FX_UVC_HEADER_DEFAULT_BFH cfg)\<rparr>"
  have a: "fst (CyFxUVCAddHeader cfg b ind s) =
           (\<lambda>i. if ind = CY_FX_UVC_HEADER_EOF cfg \<and> i = 1
                then glUVCHeader s 1 OR CY_FX_UVC_HEADER_EOF cfg
                else if i < unat (CY_FX_UVC_MAX_HEADER cfg) then glUVCHeader s i else b i)"
    using bits(3) by (auto simp: AddHeader_eq stamped_def fun_eq_iff)
  have b: "snd (CyFxUVCAddHeader cfg b ind s) =
           (if ind = CY_FX_UVC_HEADER_EOF cfg
            then s\<lparr>glUVCHeader := (glUVCHeader s)
                     (1 := glUVCHeader s 1 XOR CY_FX_UVC_HEADER_FRAME_ID cfg)\<rparr>
            else s)"
    by (simp add: AddHeader_eq)
  have inv: "glUVCHeader ?s 1 AND CY_FX_UVC_HEADER_EOF cfg = 0"
    using bits(2) by simp
  have act: "glIsApplnActive ?s" using assms(5) by simp
  have pos: "0 < unat (CY_FX_UVC_MAX_VID_FRAMES cfg)"
    using assms(3) by (simp add: playlist_ok_def)
  have l: "frameOffset ?l = 0" "unat (frameIndex ?l) = 0"
    "unat (frameStart ?l) = frame_start_of cfg 0"
    by (simp_all add: frame_start_Suc)
  obtain l' s' chunks where r: "video_streamer cfg es ?l ?s = Running l' s'"
    "dma_out s' = dma_out ?s @ chunks"
    "length (filter (chunk_eof cfg) chunks) = n"
    "glUVCHeader s' 1 = glUVCHeader ?s 1 XOR
                (if odd n then CY_FX_UVC_HEADER_FRAME_ID cfg else 0)"
    "frameOffset l' = 0"
    "unat (frameIndex l') = frame_after cfg 0 n"
    using frames_run[OF assms(1,2,3,4) act inv l(1,2) pos l(3) assms(6)] by blast
  have round: "thread_round cfg es l0 s0 = Streaming l' s'"
    unfolding thread_round_def Let_def r(1) by simp
  have nc: "new_chunks s0 s' = chunks"
    unfolding new_chunks_def r(2) by simp
  have d: "\<exists>l' s'. thread_round cfg es l0 s0 = Streaming l' s'
             \<and> frameOffset l' = 0 \<and> unat (frameIndex l') = frame_after cfg 0 n"
    using round r(5,6) by blast
  have e: "length (filter (chunk_eof cfg)
            (new_chunks s0 (outcome_state (thread_round cfg es l0 s0)))) = n"
    unfolding round using nc r(3) by simp
  have f: "glUVCHeader (outcome_state (thread_round cfg es l0 s0)) 1 =
           CY_FX_UVC_HEADER_DEFAULT_BFH cfg XOR
             (if odd n then CY_FX_UVC_HEADER_FRAME_ID cfg else 0)"
    unfolding round using r(4) by simp
  show ?thesis
    using a b AddHeader_template_eof[OF bits(1)] d e f by blast
qed

theorem C5_frame_id_toggle_witness:
  "header_bits_ok scenario_cfg \<and> sizes_ok scenario_cfg \<and> playlist_ok scenario_cfg
   \<and> list_all undisturbed
        [ok_env CY_U3P_HIGH_SPEED, ok_env CY_U3P_HIGH_SPEED, ok_env CY_U3P_HIGH_SPEED,
         ok_env CY_U3P_HIGH_SPEED, ok_env CY_U3P_HIGH_SPEED, ok_env CY_U3P_HIGH_SPEED,
         ok_env CY_U3P_HIGH_SPEED, ok_env CY_U3P_HIGH_SPEED, ok_env CY_U3P_HIGH_SPEED,
         ok_env CY_U3P_HIGH_SPEED, ok_env CY_U3P_HIGH_SPEED, ok_env CY_U3P_HIGH_SPEED,
         ok_env CY_U3P_HIGH_SPEED, ok_env CY_U3P_HIGH_SPEED, ok_env CY_U3P_HIGH_SPEED,
         ok_env CY_U3P_HIGH_SPEED]
   \<and> glIsApplnActive busy_state
   \<and> frames_passes scenario_cfg 0 3 = 16
   \<and> fst (CyFxUVCAddHeader scenario_cfg (\<lambda>i. 0xFF) 2 busy_state) 1 = 0x8E
   \<and> glUVCHeader (snd (CyFxUVCAddHeader scenario_cfg (\<lambda>i. 0xFF) 2 busy_state)) 1 = 0x8D
   \<and> glUVCHeader (snd (CyFxUVCAddHeader scenario_cfg (\<lambda>i. 0xFF) 0 busy_state)) 1 = 0x8C
   \<and> length (filter (chunk_eof scenario_cfg)
        (new_chunks busy_state (outcome_state (thread_round scenario_cfg
           [ok_env CY_U3P_HIGH_SPEED, ok_env CY_U3P_HIGH_SPEED, ok_env CY_U3P_HIGH_SPEED,
            ok_env CY_U3P_HIGH_SPEED, ok_env CY_U3P_HIGH_SPEED, ok_env CY_U3P_HIGH_SPEED,
            ok_env CY_U3P_HIGH_SPEED, ok_env CY_U3P_HIGH_SPEED, ok_env CY_U3P_HIGH_SPEED,
            ok_env CY_U3P_HIGH_SPEED, ok_env CY_U3P_HIGH_SPEED, ok_env CY_U3P_HIGH_SPEED,
            ok_env CY_U3P_HIGH_SPEED, ok_env CY_U3P_HIGH_SPEED, ok_env CY_U3P_HIGH_SPEED,
            ok_env CY_U3P_HIGH_SPEED] start_locals busy_state)))) = 3
   \<and> glUVCHeader (outcome_state (thread_round scenario_cfg
        [ok_env CY_U3P_HIGH_SPEED, ok_env CY_U3P_HIGH_SPEED, ok_env CY_U3P_HIGH_SPEED,
         ok_env CY_U3P_HIGH_SPEED, ok_env CY_U3P_HIGH_SPEED, ok_env CY_U3P_HIGH_SPEED,
         ok_env CY_U3P_HIGH_SPEED, ok_env CY_U3P_HIGH_SPEED, ok_env CY_U3P_HIGH_SPEED,
         ok_env CY_U3P_HIGH_SPEED, ok_env CY_U3P_HIGH_SPEED, ok_env CY_U3P_HIGH_SPEED,
         ok_env CY_U3P_HIGH_SPEED, ok_env CY_U3P_HIGH_SPEED, ok_env CY_U3P_HIGH_SPEED,
         ok_env CY_U3P_HIGH_SPEED] start_locals busy_state)) 1 = 0x8D"
proof -
  let ?es = "[ok_env CY_U3P_HIGH_SPEED, ok_env CY_U3P_HIGH_SPEED, ok_env CY_U3P_HIGH_SPEED,
         ok_env CY_U3P_HIGH_SPEED, ok_env CY_U3P_HIGH_SPEED, ok_env CY_U3P_HIGH_SPEED,
         ok_env CY_U3P_HIGH_SPEED, ok_env CY_U3P_HIGH_SPEED, ok_env CY_U3P_HIGH_SPEED,
         ok_env CY_U3P_HIGH_SPEED, ok_env CY_U3P_HIGH_SPEED, ok_env CY_U3P_HIGH_SPEED,
         ok_env CY_U3P_HIGH_SPEED, ok_env CY_U3P_HIGH_SPEED, ok_env CY_U3P_HIGH_SPEED,
         ok_env CY_U3P_HIGH_SPEED]"
  have h: "list_all undisturbed ?es"
    by (simp add: undisturbed_ok_env)
  have len: "length ?es = frames_passes scenario_cfg 0 3"
    by (simp add: scenario_playlist)
  have c: "CY_FX_UVC_HEADER_EOF scenario_cfg = 2" "CY_FX_UVC_HEADER_FRAME_ID scenario_cfg = 1"
    "CY_FX_UVC_HEADER_DEFAULT_BFH scenario_cfg = 0x8C" "CY_FX_UVC_MAX_HEADER scenario_cfg = 12"
    by (simp_all add: scenario_cfg_def)
  have g: "glUVCHeader busy_state (Suc 0) = 0x8C" by (simp add: busy_state_def)
  show ?thesis
    using C5_frame_id_toggle[OF scenario_bits_ok scenario_sizes(1) scenario_playlist(1) h
        busy_state_stream(1) len, of "\<lambda>i. 0xFF" 2 busy_state start_locals]
      C5_frame_id_toggle[OF scenario_bits_ok scenario_sizes(1) scenario_playlist(1) h
        busy_state_stream(1) len, of "\<lambda>i. 0xFF" 0 busy_state start_locals]
      scenario_bits_ok scenario_sizes(1) scenario_playlist(1,2) h busy_state_stream(1)
    by (simp add: c g)
qed

subsection \<open>The scenario of three frames\<close>

lemma frame_run_views:
  assumes bits: "header_bits_ok cfg" and sizes: "sizes_ok cfg"
    and es: "list_all undisturbed es"
    and act: "glIsApplnActive s"
    and inv: "glUVCHeader s 1 AND CY_FX_UVC_HEADER_EOF cfg = 0"
    and off: "frameOffset l = 0"
    and nw1: "cur_frame_len cfg l + unat (payload_size cfg) < 2 ^ 32"
    and nw2: "unat (frameStart l) + cur_frame_len cfg l < 2 ^ 32"
    and len: "length es = length (frame_chunks_spec (capacity cfg) (header_len cfg)
                (unat (frameStart l)) (cur_frame_len cfg l))"
  shows "\<exists>l' s' chunks. video_streamer cfg es l s = Running l' s'
     \<and> dma_out s' = dma_out s @ chunks
     \<and> map (\<lambda>c. unat (snd c)) chunks
         = map fst (frame_chunks_spec (capacity cfg) (header_len cfg)
                      (unat (frameStart l)) (cur_frame_len cfg l))
     \<and> map (chunk_eof cfg) chunks
         = map (\<lambda>x. fst (snd x)) (frame_chunks_spec (capacity cfg) (header_len cfg)
                      (unat (frameStart l)) (cur_frame_len cfg l))
     \<and> frameOffset l' = 0
     \<and> frameIndex l' = (if frameIndex l + 1 \<ge> CY_FX_UVC_MAX_VID_FRAMES cfg then 0
                          else frameIndex l + 1)
     \<and> frameStart l' = (if frameIndex l + 1 \<ge> CY_FX_UVC_MAX_VID_FRAMES cfg then 0
                          else frameStart l + glVidFrameLen cfg (unat (frameIndex l)))
     \<and> glIsApplnActive s'
     \<and> glUVCHeader s' 1 AND CY_FX_UVC_HEADER_EOF cfg = 0"
proof -
  let ?spec = "frame_chunks_spec (capacity cfg) (header_len cfg) (unat (frameStart l))
                 (cur_frame_len cfg l)"
  have fid: "CY_FX_UVC_HEADER_FRAME_ID cfg AND CY_FX_UVC_HEADER_EOF cfg = 0"
    using bits by (simp add: header_bits_ok_def)
  obtain l' s' chunks where r: "video_streamer cfg es l s = Running l' s'"
    "dma_out s' = dma_out s @ chunks"
    "list_all2 (chunk_matches cfg) (zip es chunks) ?spec"
    "length chunks = length es"
    "frameOffset l' = 0"
    "frameIndex l' = (if frameIndex l + 1 \<ge> CY_FX_UVC_MAX_VID_FRAMES cfg then 0
                          else frameIndex l + 1)"
    "frameStart l' = (if frameIndex l + 1 \<ge> CY_FX_UVC_MAX_VID_FRAMES cfg then 0
                          else frameStart l + glVidFrameLen cfg (unat (frameIndex l)))"
    "glIsApplnActive s'"
    "glUVCHeader s' = (glUVCHeader s)(1 := glUVCHeader s 1 XOR CY_FX_UVC_HEADER_FRAME_ID cfg)"
    using frame_run[OF bits sizes es act inv, of l] off nw1 nw2 len by auto
  have "glUVCHeader s' 1 AND CY_FX_UVC_HEADER_EOF cfg = 0"
    unfolding r(9) using inv xor_keeps_eof[OF fid] by simp
  then show ?thesis
    using r(1,2,5,6,7,8) matches_views[OF r(3,4)] by blast
qed

lemma scenario_run:
  assumes len: "length es = 16" and es: "list_all undisturbed es"
    and act: "glIsApplnActive s" and inv: "glUVCHeader s 1 AND 2 = 0"
    and l: "frameIndex l = 0" "frameStart l = 0" "frameOffset l = 0"
  shows "\<exists>l' s' chunks. video_streamer scenario_cfg es l s = Running l' s'
     \<and> dma_out s' = dma_out s @ chunks
     \<and> map (\<lambda>c. unat (snd c)) chunks
         = [1012, 1012, 1012, 1012, 1012, 212,
            1012, 1012, 1012, 1012, 1012, 1012, 1012, 1012, 1012, 1012]
     \<and> map (chunk_eof scenario_cfg) chunks
         = [False, False, False, False, True, True,
            False, False, False, False, False, False, False, False, False, True]
     \<and> frameIndex l' = 0 \<and> frameStart l' = 0 \<and> frameOffset l' = 0"
proof -
  let ?cfg = scenario_cfg
  define es0 where "es0 = take 5 es"
  define es1 where "es1 = take 1 (drop 5 es)"
  define es2 where "es2 = drop 6 es"
  have split: "es = es0 @ es1 @ es2"
  proof -
    have "drop 5 es = take 1 (drop 5 es) @ drop 1 (drop 5 es)"
      by (rule append_take_drop_id[symmetric])
    also have "drop 1 (drop 5 es) = drop 6 es" by simp
    finally have "take 5 es @ drop 5 es = take 5 es @ take 1 (drop 5 es) @ drop 6 es" by simp
    then show ?thesis unfolding es0_def es1_def es2_def by simp
  qed
  have lens: "length es0 = 5" "length es1 = 1" "length es2 = 10"
    using len by (simp_all add: es0_def es1_def es2_def)
  have all: "list_all undisturbed es0" "list_all undisturbed es1" "list_all undisturbed es2"
    using es unfolding split by simp_all
  have inv0: "glUVCHeader s 1 AND CY_FX_UVC_HEADER_EOF ?cfg = 0"
    using inv by (simp add: scenario_sizes)
  obtain l1 s1 c0 where r0: "video_streamer ?cfg es0 l s = Running l1 s1"
    "dma_out s1 = dma_out s @ c0"
    "map (\<lambda>c. unat (snd c)) c0 = [1012, 1012, 1012, 1012, 1012]"
    "map (chunk_eof ?cfg) c0 = [False, False, False, False, True]"
    "frameOffset l1 = 0" "frameIndex l1 = 1" "frameStart l1 = 5000"
    "glIsApplnActive s1" "glUVCHeader s1 1 AND CY_FX_UVC_HEADER_EOF ?cfg = 0"
    using frame_run_views[OF scenario_bits_ok scenario_sizes(1) all(1) act inv0, of l]
    by (auto simp: l lens scenario_sizes scenario_specs word_le_nat_alt)
  obtain l2 s2 c1 where r1: "video_streamer ?cfg es1 l1 s1 = Running l2 s2"
    "dma_out s2 = dma_out s1 @ c1"
    "map (\<lambda>c. unat (snd c)) c1 = [212]"
    "map (chunk_eof ?cfg) c1 = [True]"
    "frameOffset l2 = 0" "frameIndex l2 = 2" "frameStart l2 = 5200"
    "glIsApplnActive s2" "glUVCHeader s2 1 AND CY_FX_UVC_HEADER_EOF ?cfg = 0"
    using frame_run_views[OF scenario_bits_ok scenario_sizes(1) all(2) r0(8,9), of l1]
    by (auto simp: r0(5,6,7) lens scenario_sizes scenario_specs word_le_nat_alt)
  obtain l3 s3 c2 where r2: "video_streamer ?cfg es2 l2 s2 = Running l3 s3"
    "dma_out s3 = dma_out s2 @ c2"
    "map (\<lambda>c. unat (snd c)) c2 = [1012, 1012, 1012, 1012, 1012, 1012, 1012, 1012, 1012, 1012]"
    "map (chunk_eof ?cfg) c2 = [False, False, False, False, False, False, False, False, False, True]"
    "frameOffset l3 = 0" "frameIndex l3 = 0" "frameStart l3 = 0"
    using frame_run_views[OF scenario_bits_ok scenario_sizes(1) all(3) r1(8,9), of l2]
    by (auto simp: r1(5,6,7) lens scenario_sizes scenario_specs word_le_nat_alt)
  have run: "video_streamer ?cfg es l s = Running l3 s3"
    unfolding split by (simp add: video_streamer_append r0(1) r1(1) r2(1))
  have out: "dma_out s3 = dma_out s @ (c0 @ c1 @ c2)"
    by (simp add: r0(2) r1(2) r2(2))
  show ?thesis
    apply (rule exI[of _ l3], rule exI[of _ s3], rule exI[of _ "c0 @ c1 @ c2"])
    using run out r0(3,4) r1(3,4) r2(3,4,5,6,7) by simp
qed

lemma scenario_round:
  assumes "length es = 16" and "list_all undisturbed es" and "glIsApplnActive s0"
  shows "\<exists>l' s'. thread_round scenario_cfg es l0 s0 = Streaming l' s'
     \<and> map (\<lambda>c. unat (snd c)) (new_chunks s0 s')
         = [1012, 1012, 1012, 1012, 1012, 212,
            1012, 1012, 1012, 1012, 1012, 1012, 1012, 1012, 1012, 1012]
     \<and> map (chunk_eof scenario_cfg) (new_chunks s0 s')
         = [False, False, False, False, True, True,
            False, False, False, False, False, False, False, False, False, True]
     \<and> frameIndex l' = 0 \<and> frameStart l' = 0 \<and> frameOffset l' = 0"
proof -
  let ?l = "l0\<lparr>frameStart := 0, frameIndex := 0, frameOffset := 0\<rparr>"
  let ?s = "s0\<lparr>glUVCHeader := (glUVCHeader s0)(1 := CY_FX_UVC_HEADER_DEFAULT_BFH scenario_cfg)\<rparr>"
  have act: "glIsApplnActive ?s" using assms(3) by simp
  have inv: "glUVCHeader ?s 1 AND 2 = 0" by (simp add: scenario_cfg_def)
  obtain l' s' chunks where r: "video_streamer scenario_cfg es ?l ?s = Running l' s'"
    "dma_out s' = dma_out ?s @ chunks"
    "map (\<lambda>c. unat (snd c)) chunks
         = [1012, 1012, 1012, 1012, 1012, 212,
            1012, 1012, 1012, 1012, 1012, 1012, 1012, 1012, 1012, 1012]"
    "map (chunk_eof scenario_cfg) chunks
         = [False, False, False, False, True, True,
            False, False, False, False, False, False, False, False, False, True]"
    "frameIndex l' = 0" "frameStart l' = 0" "frameOffset l' = 0"
    using scenario_run[OF assms(1,2) act inv, of ?l] by auto
  have t: "thread_round scenario_cfg es l0 s0 = Streaming l' s'"
    unfolding thread_round_def Let_def r(1) by simp
  have n: "new_chunks s0 s' = chunks" by (simp add: new_chunks_def r(2))
  show ?thesis
    using t r(3,4,5,6,7) unfolding n[symmetric] by (intro exI conjI)
qed

lemma sixteen_passes:
  "length (replicate 16 (ok_env sp)) = 16" "list_all undisturbed (replicate 16 (ok_env sp))"
  by (simp_all add: list_all_iff undisturbed_ok_env)

text \<open>
  C8, as the specification states it, fails: 5000 is five times 1000, so the fifth packet
  of frame 0, the one marked EOF, carries 1000 bytes and is committed with 1012 bytes,
  not with 88.
\<close>

theorem C8_scenario_counterexample:
  "chunk_eof scenario_cfg
     (new_chunks busy_state (outcome_state (thread_round scenario_cfg
        (replicate 16 (ok_env CY_U3P_HIGH_SPEED)) start_locals busy_state)) ! 4)
   \<and> unat (snd (new_chunks busy_state (outcome_state (thread_round scenario_cfg
        (replicate 16 (ok_env CY_U3P_HIGH_SPEED)) start_locals busy_state)) ! 4)) \<noteq> 88"
proof -
  obtain l' s' where r: "thread_round scenario_cfg (replicate 16 (ok_env CY_U3P_HIGH_SPEED))
        start_locals busy_state = Streaming l' s'"
    "map (\<lambda>c. unat (snd c)) (new_chunks busy_state s')
         = [1012, 1012, 1012, 1012, 1012, 212,
            1012, 1012, 1012, 1012, 1012, 1012, 1012, 1012, 1012, 1012]"
    "map (chunk_eof scenario_cfg) (new_chunks busy_state s')
         = [False, False, False, False, True, True,
            False, False, False, False, False, False, False, False, False, True]"
    using scenario_round[OF sixteen_passes busy_state_stream(1), of CY_U3P_HIGH_SPEED start_locals]
    by (elim exE conjE)
  have len: "length (new_chunks busy_state s') = 16"
    using arg_cong[OF r(2), of length] by simp
  have "unat (snd (new_chunks busy_state s' ! 4)) = 1012"
    using arg_cong[OF r(2), of "\<lambda>xs. xs ! 4"] len by simp
  moreover have "chunk_eof scenario_cfg (new_chunks busy_state s' ! 4)"
    using arg_cong[OF r(3), of "\<lambda>xs. xs ! 4"] len by simp
  ultimately show ?thesis by (simp add: r(1))
qed

text \<open>
  C8, amended: with frames of 5000, 200 and 10000 bytes, 1000 bytes of payload in a
  buffer and a header of 12 bytes, sixteen passes from the start of a round commit five
  packets of 1012 bytes for frame 0 (the fifth marked EOF), one packet of 212 bytes
  marked EOF for frame 1, and ten packets of 1012 bytes for frame 2 (the tenth marked
  EOF), and the counters are back at frame 0.  The committed bytes of each frame are its
  length plus 12 for each of its packets.
\<close>

theorem C8_scenario:
  assumes "length es = 16" and "list_all undisturbed es" and "glIsApplnActive s0"
  shows "\<exists>l' s'. thread_round scenario_cfg es l0 s0 = Streaming l' s'
     \<and> map (\<lambda>c. unat (snd c)) (new_chunks s0 s')
         = [1012, 1012, 1012, 1012, 1012, 212,
            1012, 1012, 1012, 1012, 1012, 1012, 1012, 1012, 1012, 1012]
     \<and> map (chunk_eof scenario_cfg) (new_chunks s0 s')
         = [False, False, False, False, True, True,
            False, False, False, False, False, False, False, False, False, True]
     \<and> sum_list (take 5 (map (\<lambda>c. unat (snd c)) (new_chunks s0 s'))) = 5000 + 12 * 5
     \<and> sum_list (take 1 (drop 5 (map (\<lambda>c. unat (snd c)) (new_chunks s0 s')))) = 200 + 12 * 1
     \<and> sum_list (drop 6 (map (\<lambda>c. unat (snd c)) (new_chunks s0 s'))) = 10000 + 12 * 10
     \<and> frameIndex l' = 0 \<and> frameStart l' = 0 \<and> frameOffset l' = 0"
proof -
  obtain l' s' where r: "thread_round scenario_cfg es l0 s0 = Streaming l' s'"
    "map (\<lambda>c. unat (snd c)) (new_chunks s0 s')
         = [1012, 1012, 1012, 1012, 1012, 212,
            1012, 1012, 1012, 1012, 1012, 1012, 1012, 1012, 1012, 1012]"
    "map (chunk_eof scenario_cfg) (new_chunks s0 s')
         = [False, False, False, False, True, True,
            False, False, False, False, False, False, False, False, False, True]"
    "frameIndex l' = 0" "frameStart l' = 0" "frameOffset l' = 0"
    using scenario_round[OF assms, of l0] by (elim exE conjE)
  show ?thesis
    apply (rule exI[of _ l'], rule exI[of _ s'])
    using r by simp
qed

theorem C8_scenario_witness:
  "\<exists>l' s'. thread_round scenario_cfg (replicate 16 (ok_env CY_U3P_HIGH_SPEED)) start_locals
              busy_state = Streaming l' s'
     \<and> map (\<lambda>c. unat (snd c)) (dma_out s')
         = [1012, 1012, 1012, 1012, 1012, 212,
            1012, 1012, 1012, 1012, 1012, 1012, 1012, 1012, 1012, 1012]
     \<and> map (chunk_eof scenario_cfg) (dma_out s')
         = [False, False, False, False, True, True,
            False, False, False, False, False, False, False, False, False, True]
     \<and> frameIndex l' = 0"
  using C8_scenario[OF sixteen_passes busy_state_stream(1), of CY_U3P_HIGH_SPEED start_locals]
  by (auto simp: new_chunks_def busy_state_stream)

end
